theory Spec2Isabelle
  imports Main
begin

section \<open>JSON values and the canonical encoding\<close>

text \<open>
  Wire messages, block hashes and signing payloads all pass through Python's \<open>json\<close>
  module.  A JSON value is modelled structurally.  A Python \<open>float\<close> is carried by its
  \<open>repr\<close> text (for instance \<open>''1700000000.25''\<close>), which is what \<open>json.dumps\<close> prints
  for a finite float; a character of a string is one code point below 256; a \<open>dict\<close> is
  an association list with distinct keys in insertion order.
\<close>

datatype json =
    JNull
  | JBool bool
  | JInt int
  | JFloat string
  | JStr string
  | JList "json list"
  | JObj "(string \<times> json) list"

text \<open>
  Exceptions of the Python code are values.  \<open>OutsideModel\<close> is not a Python exception:
  it marks a dictionary whose field has a JSON type other than the one the data model
  gives it (an amount that is a string, say), where this typed model says nothing.
\<close>

datatype error = KeyError string | TypeError | IndexError | AttributeError | OutsideModel string

text \<open>Python truthiness (\<open>if x\<close>, \<open>x if x else y\<close>) of a JSON value.\<close>

fun truthy :: "json \<Rightarrow> bool" where
  "truthy JNull = False"
| "truthy (JBool b) = b"
| "truthy (JInt i) = (i \<noteq> 0)"
| "truthy (JFloat r) = (r \<noteq> ''0.0'' \<and> r \<noteq> ''-0.0'')"
| "truthy (JStr s) = (s \<noteq> [])"
| "truthy (JList xs) = (xs \<noteq> [])"
| "truthy (JObj kvs) = (kvs \<noteq> [])"

definition digit_char :: "nat \<Rightarrow> char" where
  "digit_char d = ''0123456789abcdef'' ! d"

fun dec_digits :: "nat \<Rightarrow> string" where
  "dec_digits n = (if n < 10 then [digit_char n] else dec_digits (n div 10) @ [digit_char (n mod 10)])"

declare dec_digits.simps [simp del]

definition dumps_int :: "int \<Rightarrow> string" where
  "dumps_int i = (if i < 0 then CHR ''-'' # dec_digits (nat (- i)) else dec_digits (nat i))"

definition dumps_float :: "string \<Rightarrow> string" where
  "dumps_float r =
     (if r = ''nan'' then ''NaN''
      else if r = ''inf'' then ''Infinity''
      else if r = ''-inf'' then ''-Infinity''
      else r)"

text \<open>
  \<open>ensure_ascii\<close> escaping: the quote, the backslash and every code point outside
  \<open>0x20 .. 0x7e\<close> are escaped.
\<close>

definition escape_char :: "char \<Rightarrow> string" where
  "escape_char c =
     (let n = (of_char c :: nat) in
      if n = 34 then [CHR 0x5C, CHR 0x22]
      else if n = 92 then [CHR 0x5C, CHR 0x5C]
      else if n = 10 then [CHR 0x5C, CHR ''n'']
      else if n = 13 then [CHR 0x5C, CHR ''r'']
      else if n = 9 then [CHR 0x5C, CHR ''t'']
      else if n = 8 then [CHR 0x5C, CHR ''b'']
      else if n = 12 then [CHR 0x5C, CHR ''f'']
      else if 32 \<le> n \<and> n \<le> 126 then [c]
      else [CHR 0x5C, CHR ''u'', CHR ''0'', CHR ''0'', digit_char (n div 16), digit_char (n mod 16)])"

definition dumps_str :: "string \<Rightarrow> string" where
  "dumps_str s = CHR 0x22 # concat (map escape_char s) @ [CHR 0x22]"

text \<open>\<open>sort_keys=True\<close>: keys in code-point order.\<close>

fun str_le :: "string \<Rightarrow> string \<Rightarrow> bool" where
  "str_le [] ys = True"
| "str_le (x # xs) [] = False"
| "str_le (x # xs) (y # ys) = (if x = y then str_le xs ys else (of_char x :: nat) < of_char y)"

fun insert_key :: "string \<times> 'a \<Rightarrow> (string \<times> 'a) list \<Rightarrow> (string \<times> 'a) list" where
  "insert_key kv [] = [kv]"
| "insert_key kv (kv' # rest) =
     (if str_le (fst kv) (fst kv') then kv # kv' # rest else kv' # insert_key kv rest)"

definition sort_keys :: "(string \<times> 'a) list \<Rightarrow> (string \<times> 'a) list" where
  "sort_keys kvs = foldr insert_key kvs []"

fun join :: "string \<Rightarrow> string list \<Rightarrow> string" where
  "join sep [] = []"
| "join sep [x] = x"
| "join sep (x # y # ys) = x @ sep @ join sep (y # ys)"

definition dumps_item :: "string \<times> string \<Rightarrow> string" where
  "dumps_item kv = dumps_str (fst kv) @ '': '' @ snd kv"

text \<open>\<open>json.dumps(v, sort_keys=True)\<close> with the default separators.\<close>

primrec json_dumps :: "json \<Rightarrow> string" where
  "json_dumps JNull = ''null''"
| "json_dumps (JBool b) = (if b then ''true'' else ''false'')"
| "json_dumps (JInt i) = dumps_int i"
| "json_dumps (JFloat r) = dumps_float r"
| "json_dumps (JStr s) = dumps_str s"
| "json_dumps (JList xs) = CHR ''['' # join '', '' (map json_dumps xs) @ '']''"
| "json_dumps (JObj kvs) =
     CHR ''{'' # join '', '' (map dumps_item (sort_keys (map (map_prod id json_dumps) kvs))) @ ''}''"

text \<open>\<open>d[k]\<close> and \<open>d.get(k, default)\<close> on a decoded JSON value.\<close>

definition subscript :: "json \<Rightarrow> string \<Rightarrow> error + json" where
  "subscript d k =
     (case d of
        JObj kvs \<Rightarrow> (case map_of kvs k of None \<Rightarrow> Inl (KeyError k) | Some v \<Rightarrow> Inr v)
      | _ \<Rightarrow> Inl TypeError)"

definition dict_get :: "(string \<times> json) list \<Rightarrow> string \<Rightarrow> json \<Rightarrow> json" where
  "dict_get kvs k dflt = (case map_of kvs k of None \<Rightarrow> dflt | Some v \<Rightarrow> v)"


section \<open>SHA-256 (\<open>hashlib.sha256(...).hexdigest()\<close>)\<close>

text \<open>
  The digest is computed as FIPS 180-4 describes it.  A 32-bit word is the list of its
  bits, least significant bit first, so that every step of the computation is a
  rewrite step and concrete digests can be evaluated inside the logic.
\<close>

type_synonym word32 = "bool list"

definition xor3 :: "bool \<Rightarrow> bool \<Rightarrow> bool \<Rightarrow> bool" where
  "xor3 a b c = (a \<noteq> (b \<noteq> c))"

definition chb :: "bool \<Rightarrow> bool \<Rightarrow> bool \<Rightarrow> bool" where
  "chb a b c = (if a then b else c)"

definition majb :: "bool \<Rightarrow> bool \<Rightarrow> bool \<Rightarrow> bool" where
  "majb a b c = ((a \<and> b) \<or> (a \<and> c) \<or> (b \<and> c))"

fun map3 :: "('a \<Rightarrow> 'a \<Rightarrow> 'a \<Rightarrow> 'a) \<Rightarrow> 'a list \<Rightarrow> 'a list \<Rightarrow> 'a list \<Rightarrow> 'a list" where
  "map3 f (a # as) (b # bs) (c # cs) = f a b c # map3 f as bs cs"
| "map3 f as bs cs = []"

definition rotr :: "nat \<Rightarrow> word32 \<Rightarrow> word32" where
  "rotr n x = drop n x @ take n x"

definition shr :: "nat \<Rightarrow> word32 \<Rightarrow> word32" where
  "shr n x = drop n x @ replicate n False"

definition big_sigma0 :: "word32 \<Rightarrow> word32" where
  "big_sigma0 x = map3 xor3 (rotr 2 x) (rotr 13 x) (rotr 22 x)"

definition big_sigma1 :: "word32 \<Rightarrow> word32" where
  "big_sigma1 x = map3 xor3 (rotr 6 x) (rotr 11 x) (rotr 25 x)"

definition small_sigma0 :: "word32 \<Rightarrow> word32" where
  "small_sigma0 x = map3 xor3 (rotr 7 x) (rotr 18 x) (shr 3 x)"

definition small_sigma1 :: "word32 \<Rightarrow> word32" where
  "small_sigma1 x = map3 xor3 (rotr 17 x) (rotr 19 x) (shr 10 x)"

text \<open>Addition modulo \<open>2 ^ 32\<close>: a ripple-carry adder that drops the last carry.\<close>

fun adc :: "bool \<Rightarrow> word32 \<Rightarrow> word32 \<Rightarrow> word32" where
  "adc c (a # as) (b # bs) = xor3 a b c # adc (majb a b c) as bs"
| "adc c as bs = []"

definition add32 :: "word32 \<Rightarrow> word32 \<Rightarrow> word32" where
  "add32 x y = adc False x y"

fun bits_of :: "nat \<Rightarrow> nat \<Rightarrow> word32" where
  "bits_of n v = (if n = 0 then [] else odd v # bits_of (n - 1) (v div 2))"

declare bits_of.simps [simp del]

definition word32_of :: "nat \<Rightarrow> word32" where
  "word32_of v = bits_of 32 v"

definition sha256_K :: "word32 list" where
  "sha256_K = map word32_of
    [1116352408, 1899447441, 3049323471, 3921009573, 961987163, 1508970993, 2453635748,
     2870763221, 3624381080, 310598401, 607225278, 1426881987, 1925078388, 2162078206,
     2614888103, 3248222580, 3835390401, 4022224774, 264347078, 604807628, 770255983,
     1249150122, 1555081692, 1996064986, 2554220882, 2821834349, 2952996808, 3210313671,
     3336571891, 3584528711, 113926993, 338241895, 666307205, 773529912, 1294757372,
     1396182291, 1695183700, 1986661051, 2177026350, 2456956037, 2730485921, 2820302411,
     3259730800, 3345764771, 3516065817, 3600352804, 4094571909, 275423344, 430227734,
     506948616, 659060556, 883997877, 958139571, 1322822218, 1537002063, 1747873779,
     1955562222, 2024104815, 2227730452, 2361852424, 2428436474, 2756734187, 3204031479,
     3329325298]"

definition sha256_H0 :: "word32 list" where
  "sha256_H0 = map word32_of
    [1779033703, 3144134277, 1013904242, 2773480762, 1359893119, 2600822924, 528734635,
     1541459225]"

fun sha_round :: "word32 list \<Rightarrow> word32 \<Rightarrow> word32 \<Rightarrow> word32 list" where
  "sha_round [a, b, c, d, e, f, g, h] k w =
     (let t1 = add32 (add32 (add32 (add32 h (big_sigma1 e)) (map3 chb e f g)) k) w;
          t2 = add32 (big_sigma0 a) (map3 majb a b c)
      in [add32 t1 t2, a, b, c, add32 d t1, e, f, g])"
| "sha_round s k w = s"

text \<open>The message schedule is a sliding window of the last sixteen words.\<close>

definition next_w :: "word32 list \<Rightarrow> word32" where
  "next_w ws =
     add32 (add32 (add32 (small_sigma1 (ws ! 14)) (ws ! 9)) (small_sigma0 (ws ! 1))) (ws ! 0)"

fun sha_rounds :: "word32 list \<Rightarrow> word32 list \<Rightarrow> word32 list \<Rightarrow> word32 list" where
  "sha_rounds s ws [] = s"
| "sha_rounds s ws (k # ks) = sha_rounds (sha_round s k (hd ws)) (tl ws @ [next_w ws]) ks"

definition add_words :: "word32 list \<Rightarrow> word32 list \<Rightarrow> word32 list" where
  "add_words xs ys = map2 add32 xs ys"

definition sha_compress :: "word32 list \<Rightarrow> word32 list \<Rightarrow> word32 list" where
  "sha_compress s ws = add_words s (sha_rounds s ws sha256_K)"

fun bits_of_char :: "char \<Rightarrow> bool list" where
  "bits_of_char (Char b0 b1 b2 b3 b4 b5 b6 b7) = [b0, b1, b2, b3, b4, b5, b6, b7]"

fun be_words :: "string \<Rightarrow> word32 list" where
  "be_words (a # b # c # d # r) =
     (bits_of_char d @ bits_of_char c @ bits_of_char b @ bits_of_char a) # be_words r"
| "be_words r = []"

definition byte_char :: "nat \<Rightarrow> char" where
  "byte_char n = Char (odd n) (odd (n div 2)) (odd (n div 4)) (odd (n div 8))
     (odd (n div 16)) (odd (n div 32)) (odd (n div 64)) (odd (n div 128))"

definition be64 :: "nat \<Rightarrow> string" where
  "be64 v = map (\<lambda>i. byte_char (v div 256 ^ i)) [7, 6, 5, 4, 3, 2, 1, 0]"

fun pad_zeros :: "nat \<Rightarrow> string" where
  "pad_zeros n = (if n = 0 then [] else CHR 0x00 # pad_zeros (n - 1))"

declare pad_zeros.simps [simp del]

definition sha_pad :: "string \<Rightarrow> string" where
  "sha_pad m =
     m @ [CHR 0x80] @ pad_zeros ((119 - length m mod 64) mod 64) @ be64 (8 * length m)"

function sha_blocks :: "word32 list \<Rightarrow> word32 list \<Rightarrow> word32 list" where
  "sha_blocks s ws =
     (if length ws < 16 then s else sha_blocks (sha_compress s (take 16 ws)) (drop 16 ws))"
  by pat_completeness auto
termination
  by (relation "measure (\<lambda>(s, ws). length ws)") auto

declare sha_blocks.simps [simp del]

definition hex_digit :: "bool list \<Rightarrow> char" where
  "hex_digit bs = digit_char (horner_sum of_bool 2 bs)"

fun hex_word :: "nat \<Rightarrow> word32 \<Rightarrow> string" where
  "hex_word n w = (if n = 0 then [] else hex_word (n - 1) (drop 4 w) @ [hex_digit (take 4 w)])"

declare hex_word.simps [simp del]

text \<open>The length of a list, counted with an accumulator (used to evaluate \<open>length\<close>).\<close>

fun count :: "nat \<Rightarrow> 'a list \<Rightarrow> nat" where
  "count n [] = n"
| "count n (x # xs) = count (n + 1) xs"

definition sha256_hexdigest :: "string \<Rightarrow> string" where
  "sha256_hexdigest m =
     concat (map (hex_word 8) (sha_blocks sha256_H0 (be_words (sha_pad m))))"

section \<open>Transaction.py\<close>

text \<open>
  The fields of a transaction carry the types the data model gives them; \<open>timestamp\<close>
  and \<open>signature\<close> stay JSON values, because the code only tests their truthiness,
  serialises them and hands the signature to the verifier.
\<close>

record transaction =
  tx_id :: string
  sender_pubkey :: string
  receiver_pubkey :: string
  amount :: int
  fee :: int
  timestamp :: json
  signature :: json

text \<open>
  What one constructor call reads from outside: \<open>now\<close> is the \<open>repr\<close> of the float
  \<open>time.time()\<close> returns, \<open>uuid\<close> is \<open>str(uuid.uuid4())\<close>.  An oracle gives every
  constructor call of one operation its own readings.
\<close>

record env =
  now :: string
  uuid :: string

type_synonym readings = "nat \<Rightarrow> env"

text \<open>\<open>Transaction.__init__\<close>; \<open>None\<close> for \<open>tx_id\<close> is \<open>None\<close>, for the others \<open>JNull\<close>.\<close>

definition Transaction_init ::
  "env \<Rightarrow> string \<Rightarrow> string \<Rightarrow> int \<Rightarrow> int \<Rightarrow> string option \<Rightarrow> json \<Rightarrow> json \<Rightarrow> transaction" where
  "Transaction_init e sender receiver amt f tid sg ts =
     \<lparr>tx_id = (case tid of None \<Rightarrow> uuid e | Some i \<Rightarrow> if i \<noteq> [] then i else uuid e),
      sender_pubkey = sender,
      receiver_pubkey = receiver,
      amount = amt,
      fee = f,
      timestamp = (if truthy ts then ts else JFloat (now e)),
      signature = sg\<rparr>"

definition Transaction_to_dict :: "transaction \<Rightarrow> json" where
  "Transaction_to_dict tx =
     JObj [(''tx_id'', JStr (tx_id tx)),
           (''sender_pubkey'', JStr (sender_pubkey tx)),
           (''receiver_pubkey'', JStr (receiver_pubkey tx)),
           (''amount'', JInt (amount tx)),
           (''fee'', JInt (fee tx)),
           (''timestamp'', timestamp tx),
           (''signature'', signature tx)]"

definition get_signing_data :: "transaction \<Rightarrow> string" where
  "get_signing_data tx =
     json_dumps (JObj [(''tx_id'', JStr (tx_id tx)),
                       (''sender_pubkey'', JStr (sender_pubkey tx)),
                       (''receiver_pubkey'', JStr (receiver_pubkey tx)),
                       (''amount'', JInt (amount tx)),
                       (''fee'', JInt (fee tx)),
                       (''timestamp'', timestamp tx)])"

text \<open>
  The typed reading of the looked-up values.  A value of another JSON type leaves the
  model; \<open>null\<close> for \<open>tx_id\<close> is Python's \<open>None\<close>.
\<close>

definition as_str :: "json \<Rightarrow> string option" where
  "as_str j = (case j of JStr s \<Rightarrow> Some s | _ \<Rightarrow> None)"

definition as_int :: "json \<Rightarrow> int option" where
  "as_int j = (case j of JInt i \<Rightarrow> Some i | _ \<Rightarrow> None)"

definition as_opt_str :: "json \<Rightarrow> string option option" where
  "as_opt_str j = (case j of JStr s \<Rightarrow> Some (Some s) | JNull \<Rightarrow> Some None | _ \<Rightarrow> None)"

definition typed_transaction ::
  "env \<Rightarrow> json \<Rightarrow> json \<Rightarrow> json \<Rightarrow> json \<Rightarrow> json \<Rightarrow> json \<Rightarrow> json \<Rightarrow> error + transaction" where
  "typed_transaction e s r a f i sg ts =
     (case (as_str s, as_str r, as_int a, as_int f, as_opt_str i) of
        (Some s', Some r', Some a', Some f', Some i') \<Rightarrow>
          Inr (Transaction_init e s' r' a' f' i' sg ts)
      | _ \<Rightarrow> Inl (OutsideModel ''transaction''))"

text \<open>
  \<open>Transaction.from_dict\<close>: the keyword arguments are evaluated in the order written,
  so the first missing key among \<open>sender_pubkey\<close>, \<open>receiver_pubkey\<close>, \<open>amount\<close>,
  \<open>tx_id\<close> is the \<open>KeyError\<close> raised.
\<close>

definition Transaction_from_dict :: "env \<Rightarrow> json \<Rightarrow> error + transaction" where
  "Transaction_from_dict e data =
     (case data of
        JObj kvs \<Rightarrow>
          (case map_of kvs ''sender_pubkey'' of
             None \<Rightarrow> Inl (KeyError ''sender_pubkey'')
           | Some s \<Rightarrow>
          (case map_of kvs ''receiver_pubkey'' of
             None \<Rightarrow> Inl (KeyError ''receiver_pubkey'')
           | Some r \<Rightarrow>
          (case map_of kvs ''amount'' of
             None \<Rightarrow> Inl (KeyError ''amount'')
           | Some a \<Rightarrow>
          (case map_of kvs ''tx_id'' of
             None \<Rightarrow> Inl (KeyError ''tx_id'')
           | Some i \<Rightarrow>
               typed_transaction e s r a (dict_get kvs ''fee'' (JInt 0)) i
                 (dict_get kvs ''signature'' JNull) (dict_get kvs ''timestamp'' JNull)))))
      | _ \<Rightarrow> Inl TypeError)"

text \<open>\<open>Transaction.__eq__\<close>, and with it \<open>tx in xs\<close> and \<open>xs.remove(tx)\<close>.\<close>

definition tx_eq :: "transaction \<Rightarrow> transaction \<Rightarrow> bool" where
  "tx_eq a b = (tx_id a = tx_id b)"

definition tx_in :: "transaction \<Rightarrow> transaction list \<Rightarrow> bool" where
  "tx_in tx xs = list_ex (tx_eq tx) xs"

fun list_remove :: "transaction \<Rightarrow> transaction list \<Rightarrow> transaction list" where
  "list_remove tx [] = []"
| "list_remove tx (x # xs) = (if tx_eq x tx then xs else x # list_remove tx xs)"

definition create_reward_transaction :: "env \<Rightarrow> string \<Rightarrow> int \<Rightarrow> int \<Rightarrow> transaction" where
  "create_reward_transaction e miner_pubkey amt fee_sum =
     (Transaction_init e ''COINBASE'' miner_pubkey (amt + fee_sum) 0 (Some (uuid e)) JNull JNull)
       \<lparr>signature := JStr ''COINBASE''\<rparr>"

section \<open>Block.py\<close>

text \<open>An entry of a block's transaction list: a \<open>Transaction\<close> object or anything else.\<close>

datatype tx_item = Tx transaction | Raw json

record block =
  index :: int
  block_timestamp :: json
  transactions :: "tx_item list"
  prev_hash :: string
  nonce :: int
  hash :: string

fun item_to_dict :: "tx_item \<Rightarrow> json" where
  "item_to_dict (Tx tx) = Transaction_to_dict tx"
| "item_to_dict (Raw j) = j"

definition generate_hash :: "block \<Rightarrow> string" where
  "generate_hash b =
     sha256_hexdigest (json_dumps (JObj
       [(''index'', JInt (index b)),
        (''timestamp'', block_timestamp b),
        (''transactions'', JList (map item_to_dict (transactions b))),
        (''prev_hash'', JStr (prev_hash b)),
        (''nonce'', JInt (nonce b))]))"

definition Block_to_dict :: "block \<Rightarrow> json" where
  "Block_to_dict b =
     JObj [(''index'', JInt (index b)),
           (''timestamp'', block_timestamp b),
           (''transactions'', JList (map item_to_dict (transactions b))),
           (''prev_hash'', JStr (prev_hash b)),
           (''nonce'', JInt (nonce b)),
           (''hash'', JStr (hash b))]"

text \<open>\<open>Block.__init__\<close>: a timestamp that \<open>is None\<close> is read from the clock, a missing hash computed.\<close>

definition Block_init ::
  "env \<Rightarrow> int \<Rightarrow> tx_item list \<Rightarrow> string \<Rightarrow> json \<Rightarrow> int \<Rightarrow> string option \<Rightarrow> block" where
  "Block_init e idx txs prev ts n hash_val =
     (let b = \<lparr>index = idx,
               block_timestamp = (if ts = JNull then JFloat (now e) else ts),
               transactions = txs,
               prev_hash = prev,
               nonce = n,
               hash = []\<rparr>
      in b\<lparr>hash := (case hash_val of None \<Rightarrow> generate_hash b | Some h \<Rightarrow> h)\<rparr>)"

definition has_key :: "json \<Rightarrow> string \<Rightarrow> bool" where
  "has_key j k = (case j of JObj kvs \<Rightarrow> map_of kvs k \<noteq> None | _ \<Rightarrow> False)"

definition item_from_dict :: "env \<Rightarrow> json \<Rightarrow> error + tx_item" where
  "item_from_dict e j =
     (if has_key j ''tx_id''
      then (case Transaction_from_dict e j of Inl err \<Rightarrow> Inl err | Inr tx \<Rightarrow> Inr (Tx tx))
      else Inr (Raw j))"

text \<open>The list comprehension: the first element that raises ends it.\<close>

fun items_from_dict :: "readings \<Rightarrow> nat \<Rightarrow> json list \<Rightarrow> error + tx_item list" where
  "items_from_dict E i [] = Inr []"
| "items_from_dict E i (j # js) =
     (case item_from_dict (E i) j of
        Inl err \<Rightarrow> Inl err
      | Inr it \<Rightarrow>
          (case items_from_dict E (Suc i) js of
             Inl err \<Rightarrow> Inl err
           | Inr its \<Rightarrow> Inr (it # its)))"

definition typed_block ::
  "env \<Rightarrow> json \<Rightarrow> tx_item list \<Rightarrow> json \<Rightarrow> json \<Rightarrow> json \<Rightarrow> json \<Rightarrow> error + block" where
  "typed_block e idx txs prev ts n h =
     (case (as_int idx, as_str prev, as_int n, as_opt_str h) of
        (Some idx', Some prev', Some n', Some h') \<Rightarrow>
          Inr (Block_init e idx' txs prev' ts n' h')
      | _ \<Rightarrow> Inl (OutsideModel ''block''))"

text \<open>
  \<open>Block.from_dict\<close>.  The transaction list is built first, then the constructor's
  arguments are looked up.  Entry \<open>i\<close> of the list reads \<open>E (Suc i)\<close>, the block's own
  constructor reads \<open>E 0\<close>.
\<close>

definition Block_from_dict :: "readings \<Rightarrow> json \<Rightarrow> error + block" where
  "Block_from_dict E data =
     (case data of
        JObj kvs \<Rightarrow>
          (case map_of kvs ''transactions'' of
             None \<Rightarrow> Inl (KeyError ''transactions'')
           | Some (JList js) \<Rightarrow>
               (case items_from_dict E 1 js of
                  Inl err \<Rightarrow> Inl err
                | Inr txs \<Rightarrow>
               (case map_of kvs ''index'' of
                  None \<Rightarrow> Inl (KeyError ''index'')
                | Some idx \<Rightarrow>
               (case map_of kvs ''prev_hash'' of
                  None \<Rightarrow> Inl (KeyError ''prev_hash'')
                | Some prev \<Rightarrow>
                    typed_block (E 0) idx txs prev (dict_get kvs ''timestamp'' JNull)
                      (dict_get kvs ''nonce'' (JInt 0)) (dict_get kvs ''hash'' JNull))))
           | Some (JStr s) \<Rightarrow> Inl (OutsideModel ''transactions'')
           | Some (JObj d) \<Rightarrow> Inl (OutsideModel ''transactions'')
           | Some _ \<Rightarrow> Inl TypeError)
      | _ \<Rightarrow> Inl TypeError)"

section \<open>Blockchain.py\<close>

definition difficulty :: nat where
  "difficulty = 4"

definition BLOCK_SIZE_LIMIT :: nat where
  "BLOCK_SIZE_LIMIT = 3"

definition MINING_REWARD :: int where
  "MINING_REWARD = 10"

definition startswith :: "string \<Rightarrow> string \<Rightarrow> bool" where
  "startswith s p = (take (length p) s = p)"

definition meets_difficulty :: "string \<Rightarrow> bool" where
  "meets_difficulty h = startswith h (replicate difficulty CHR ''0'')"

definition genesis_dict :: json where
  "genesis_dict = JObj [(''type'', JStr ''genesis''), (''message'', JStr ''Genesis Block'')]"

text \<open>
  \<open>create_genesis_block\<close>: every argument is fixed, so the constructor reads no clock
  (the readings handed to it here are never used).
\<close>

definition create_genesis_block :: block where
  "create_genesis_block =
     (let genesis = Block_init \<lparr>now = [], uuid = []\<rparr> 0 [Raw genesis_dict] ''0'' (JInt 0) 0 None
      in genesis\<lparr>hash := generate_hash genesis\<rparr>)"

text \<open>The chain is the state of a \<open>Blockchain\<close> object; \<open>__init__\<close> leaves the genesis block in it.\<close>

definition Blockchain_init :: "block list" where
  "Blockchain_init = [] @ [create_genesis_block]"

definition last_block :: "block list \<Rightarrow> error + block" where
  "last_block chain = (if chain = [] then Inl IndexError else Inr (last chain))"

text \<open>
  \<open>is_valid_block\<close>.  The argument \<open>block_hash\<close> is whatever the caller passes:
  \<open>receive_block\<close> passes \<open>block.hash\<close>, which \<open>Block.from_dict\<close> takes from the
  received dictionary as it is.  Only text has a \<open>startswith\<close> method; on every other
  value the call \<open>block_hash.startswith\<close> raises \<open>AttributeError\<close>.
\<close>

definition is_valid_block :: "block \<Rightarrow> json \<Rightarrow> error + bool" where
  "is_valid_block b block_hash =
     (case block_hash of
        JStr h \<Rightarrow> Inr (if \<not> meets_difficulty h then False else generate_hash b = h)
      | _ \<Rightarrow> Inl AttributeError)"

text \<open>
  \<open>add_block\<close> returns the flag and the chain it leaves behind, or the exception
  that \<open>self.chain[-1]\<close> or \<open>is_valid_block\<close> raises.  The hash stored in the
  appended block is text, since any other value has raised before.
\<close>

definition add_block :: "block list \<Rightarrow> block \<Rightarrow> json \<Rightarrow> error + (bool \<times> block list)" where
  "add_block chain b block_hash =
     (if chain = [] then Inl IndexError
      else if hash (last chain) \<noteq> prev_hash b then Inr (False, chain)
      else (case is_valid_block b block_hash of
              Inl err \<Rightarrow> Inl err
            | Inr valid \<Rightarrow>
                if \<not> valid then Inr (False, chain)
                else (case block_hash of
                        JStr h \<Rightarrow> Inr (True, chain @ [b\<lparr>hash := h\<rparr>])
                      | _ \<Rightarrow> Inl AttributeError)))"

text \<open>The loop of \<open>is_valid_chain\<close> over \<open>i = 1 ..\<close>, with \<open>prev = chain[i - 1]\<close>.\<close>

fun valid_links :: "block \<Rightarrow> block list \<Rightarrow> bool" where
  "valid_links prev [] = True"
| "valid_links prev (cur # bs) =
     (if prev_hash cur \<noteq> hash prev then False
      else if \<not> meets_difficulty (hash cur) then False
      else if generate_hash cur \<noteq> hash cur then False
      else valid_links cur bs)"

definition is_valid_chain :: "block list \<Rightarrow> bool" where
  "is_valid_chain chain =
     (case chain of
        [] \<Rightarrow> False
      | g # bs \<Rightarrow> if prev_hash g \<noteq> ''0'' then False else valid_links g bs)"

definition replace_chain :: "block list \<Rightarrow> block list \<Rightarrow> bool \<times> block list" where
  "replace_chain chain new_chain =
     (if length new_chain > length chain \<and> is_valid_chain new_chain
      then (True, new_chain)
      else (False, chain))"

text \<open>
  \<open>proof_of_work\<close>: the search need not end, so the loop is a partial function and
  \<open>None\<close> is a search that never returns.  The result is the block as the search leaves
  it (with the nonce found) and the hash.
\<close>

partial_function (option) pow_loop :: "block \<Rightarrow> (block \<times> string) option" where
  "pow_loop b =
     (if meets_difficulty (generate_hash b) then Some (b, generate_hash b)
      else pow_loop (b\<lparr>nonce := nonce b + 1\<rparr>))"

definition proof_of_work :: "block \<Rightarrow> (block \<times> string) option" where
  "proof_of_work b = pow_loop (b\<lparr>nonce := 0\<rparr>)"

fun balance_item :: "string \<Rightarrow> tx_item \<Rightarrow> int \<Rightarrow> int" where
  "balance_item pubkey (Tx tx) balance =
     (let balance = (if sender_pubkey tx = pubkey then balance - (amount tx + fee tx) else balance)
      in if receiver_pubkey tx = pubkey then balance + amount tx else balance)"
| "balance_item pubkey (Raw j) balance = balance"

definition get_balance :: "block list \<Rightarrow> string \<Rightarrow> int" where
  "get_balance chain pubkey =
     fold (\<lambda>b balance. fold (balance_item pubkey) (transactions b) balance) (tl chain) 100"

definition get_balance_with_mempool :: "block list \<Rightarrow> string \<Rightarrow> transaction list \<Rightarrow> int" where
  "get_balance_with_mempool chain pubkey mp =
     fold (\<lambda>tx balance. if sender_pubkey tx = pubkey then balance - (amount tx + fee tx) else balance)
       mp (get_balance chain pubkey)"

section \<open>Node.py\<close>

text \<open>
  The state of a node that the operations below read and write.  Sockets, threads,
  locks, log output and the files on disk are not part of it: operations run one
  after the other, messages sent to peers are not recorded.
\<close>

record node =
  chain :: "block list"
  mempool :: "transaction list"
  public_key_str :: string
  is_miner :: bool

text \<open>
  What the \<open>cryptography\<close> package and Python's \<open>set\<close> decide.
  \<open>ecdsa_verify pk sg msg\<close> holds when loading the PEM key \<open>pk\<close>, decoding the hex
  text \<open>sg\<close> and verifying it against \<open>msg\<close> all complete without an exception;
  \<open>ecdsa_sign msg\<close> is the hex text of the node's signature; \<open>set_rank\<close> orders the
  iteration over a \<open>set\<close> of identifiers (any order is the sorting by some rank).
\<close>

record ext =
  ecdsa_verify :: "string \<Rightarrow> string \<Rightarrow> string \<Rightarrow> bool"
  ecdsa_sign :: "string \<Rightarrow> string"
  set_rank :: "string \<Rightarrow> nat"

definition sign_transaction :: "ext \<Rightarrow> transaction \<Rightarrow> transaction" where
  "sign_transaction X tx = tx\<lparr>signature := JStr (ecdsa_sign X (get_signing_data tx))\<rparr>"

definition verify_transaction :: "ext \<Rightarrow> node \<Rightarrow> transaction \<Rightarrow> bool" where
  "verify_transaction X s tx =
     (if sender_pubkey tx = ''COINBASE'' then True
      else if \<not> truthy (signature tx) then False
      else (case signature tx of
              JStr sg \<Rightarrow>
                if ecdsa_verify X (sender_pubkey tx) sg (get_signing_data tx)
                then (if get_balance_with_mempool (chain s) (sender_pubkey tx) (mempool s)
                           < amount tx + fee tx
                      then False else True)
                else False
            | _ \<Rightarrow> False))"

definition create_and_sign_transaction ::
  "ext \<Rightarrow> env \<Rightarrow> node \<Rightarrow> string \<Rightarrow> int \<Rightarrow> int \<Rightarrow> transaction option" where
  "create_and_sign_transaction X e s receiver amt f =
     (if get_balance_with_mempool (chain s) (public_key_str s) (mempool s) < amt + f then None
      else Some (sign_transaction X
                  (Transaction_init e (public_key_str s) receiver amt f None JNull JNull)))"

definition item_has_id :: "string \<Rightarrow> tx_item \<Rightarrow> bool" where
  "item_has_id i it = (case it of Tx btx \<Rightarrow> tx_id btx = i | Raw j \<Rightarrow> False)"

definition in_chain :: "block list \<Rightarrow> transaction \<Rightarrow> bool" where
  "in_chain c tx = list_ex (\<lambda>b. list_ex (item_has_id (tx_id tx)) (transactions b)) c"

definition add_transaction :: "ext \<Rightarrow> node \<Rightarrow> transaction \<Rightarrow> bool \<times> node" where
  "add_transaction X s tx =
     (if in_chain (chain s) tx then (False, s)
      else if \<not> verify_transaction X s tx then (False, s)
      else if \<not> tx_in tx (mempool s) then (True, s\<lparr>mempool := mempool s @ [tx]\<rparr>)
      else (False, s))"

text \<open>
  The two parts of \<open>add_transaction\<close>.  The search through the chain copy and the call of
  \<open>verify_transaction\<close> run before \<open>self.lock\<close> is taken, the test of the mempool and
  the append run under it; a call on another thread can run between the two.
\<close>

definition add_transaction_checks :: "ext \<Rightarrow> node \<Rightarrow> transaction \<Rightarrow> bool" where
  "add_transaction_checks X s tx =
     (if in_chain (chain s) tx then False
      else if \<not> verify_transaction X s tx then False
      else True)"

definition add_transaction_locked :: "node \<Rightarrow> transaction \<Rightarrow> bool \<times> node" where
  "add_transaction_locked s tx =
     (if \<not> tx_in tx (mempool s) then (True, s\<lparr>mempool := mempool s @ [tx]\<rparr>)
      else (False, s))"

text \<open>The loop that takes the transactions of an accepted block out of the mempool.\<close>

fun remove_included :: "tx_item list \<Rightarrow> transaction list \<Rightarrow> transaction list" where
  "remove_included [] mp = mp"
| "remove_included (Tx tx # its) mp =
     remove_included its (if tx_in tx mp then list_remove tx mp else mp)"
| "remove_included (Raw j # its) mp = remove_included its mp"

text \<open>The identifiers of the transactions in a list of blocks, in block order.\<close>

fun item_ids :: "tx_item list \<Rightarrow> string list" where
  "item_ids [] = []"
| "item_ids (Tx tx # its) = tx_id tx # item_ids its"
| "item_ids (Raw j # its) = item_ids its"

definition block_tx_ids :: "block list \<Rightarrow> string list" where
  "block_tx_ids bs = concat (map (\<lambda>b. item_ids (transactions b)) bs)"

text \<open>
  \<open>old_tx_map[tx.tx_id] = tx\<close> on a dictionary kept as an association list: an
  existing key keeps its place and takes the new value.
\<close>

fun dict_set :: "string \<Rightarrow> transaction \<Rightarrow> (string \<times> transaction) list \<Rightarrow> (string \<times> transaction) list" where
  "dict_set k v [] = [(k, v)]"
| "dict_set k v ((k', v') # m) = (if k = k' then (k, v) # m else (k', v') # dict_set k v m)"

fun map_items :: "tx_item list \<Rightarrow> (string \<times> transaction) list \<Rightarrow> (string \<times> transaction) list" where
  "map_items [] m = m"
| "map_items (Tx tx # its) m = map_items its (dict_set (tx_id tx) tx m)"
| "map_items (Raw j # its) m = map_items its m"

definition tx_map :: "block list \<Rightarrow> (string \<times> transaction) list" where
  "tx_map bs = fold (\<lambda>b m. map_items (transactions b) m) bs []"

text \<open>The reinjection loop over \<open>orphan_only_ids\<close>, in the order the set is iterated.\<close>

fun reinject ::
  "ext \<Rightarrow> (string \<times> transaction) list \<Rightarrow> string list \<Rightarrow> node \<Rightarrow> node" where
  "reinject X m [] s = s"
| "reinject X m (i # ids) s =
     (case map_of m i of
        None \<Rightarrow> reinject X m ids s
      | Some tx \<Rightarrow>
          if \<not> verify_transaction X s tx then reinject X m ids s
          else if \<not> tx_in tx (mempool s) then reinject X m ids (s\<lparr>mempool := mempool s @ [tx]\<rparr>)
          else reinject X m ids s)"

text \<open>The comprehension \<open>[Block.from_dict(b) for b in chain_data]\<close>; block \<open>i\<close> reads \<open>E i\<close>.\<close>

fun blocks_from_dict :: "(nat \<Rightarrow> readings) \<Rightarrow> nat \<Rightarrow> json list \<Rightarrow> error + block list" where
  "blocks_from_dict E i [] = Inr []"
| "blocks_from_dict E i (j # js) =
     (case Block_from_dict (E i) j of
        Inl err \<Rightarrow> Inl err
      | Inr b \<Rightarrow>
          (case blocks_from_dict E (Suc i) js of
             Inl err \<Rightarrow> Inl err
           | Inr bs \<Rightarrow> Inr (b # bs)))"

text \<open>
  An exception caught by the handler leaves the state as it is; a dictionary outside
  the typed model has no successor state here.
\<close>

definition catch :: "error + 'a \<Rightarrow> node \<Rightarrow> ('a \<Rightarrow> node option) \<Rightarrow> node option" where
  "catch r s k =
     (case r of
        Inl (OutsideModel x) \<Rightarrow> None
      | Inl err \<Rightarrow> Some s
      | Inr v \<Rightarrow> k v)"

text \<open>
  \<open>handle_chain_response\<close>.  Data that is not a list either raises inside the \<open>try\<close> or
  gives an empty chain, which is never adopted.
\<close>

definition adopt_chain :: "ext \<Rightarrow> node \<Rightarrow> block list \<Rightarrow> node" where
  "adopt_chain X s new_chain =
     (let old_chain = chain s;
          old_tx_map = tx_map (tl old_chain);
          new_tx_ids = block_tx_ids (tl new_chain);
          (replaced, c) = replace_chain (chain s) new_chain
      in if replaced
         then (let s1 = s\<lparr>chain := c,
                          mempool := filter (\<lambda>tx. \<not> (tx_id tx \<in> set new_tx_ids)) (mempool s)\<rparr>;
                   orphan_only_ids =
                     sort_key (set_rank X) (filter (\<lambda>i. i \<notin> set new_tx_ids) (map fst old_tx_map))
               in reinject X old_tx_map orphan_only_ids s1)
         else s)"

definition handle_chain_response :: "ext \<Rightarrow> (nat \<Rightarrow> readings) \<Rightarrow> node \<Rightarrow> json \<Rightarrow> node option" where
  "handle_chain_response X E s chain_data =
     (case chain_data of
        JList js \<Rightarrow> catch (blocks_from_dict E 0 js) s (\<lambda>new_chain. Some (adopt_chain X s new_chain))
      | _ \<Rightarrow> Some s)"

text \<open>
  \<open>request_chain_from_peers\<close>: the argument lists, peer by peer, the chain data of
  every answer that arrived, each with the readings its reconstruction makes.
\<close>

type_synonym responses = "((nat \<Rightarrow> readings) \<times> json) list"

fun request_chain_from_peers :: "ext \<Rightarrow> responses \<Rightarrow> node \<Rightarrow> node option" where
  "request_chain_from_peers X [] s = Some s"
| "request_chain_from_peers X ((E, d) # rs) s =
     (case handle_chain_response X E s d of
        None \<Rightarrow> None
      | Some s' \<Rightarrow> request_chain_from_peers X rs s')"

text \<open>
  \<open>receive_block\<close>.  An exception of \<open>add_block\<close> would leave the call before
  anything is changed; it is returned as the error.  The hash of a block of this typed
  model is text, so \<open>block.hash\<close> is passed as text.
\<close>

definition receive_block ::
  "ext \<Rightarrow> responses \<Rightarrow> node \<Rightarrow> block \<Rightarrow> (error + bool \<times> node) option" where
  "receive_block X rs s b =
     (case add_block (chain s) b (JStr (hash b)) of
        Inl err \<Rightarrow> Some (Inl err)
      | Inr (appended, c) \<Rightarrow>
          if appended
          then Some (Inr (True,
                 s\<lparr>chain := c, mempool := remove_included (transactions b) (mempool s)\<rparr>))
          else (case request_chain_from_peers X rs s of
                  None \<Rightarrow> None
                | Some s' \<Rightarrow> Some (Inr (False, s'))))"

text \<open>\<open>pick_transactions\<close>: a stable sort by descending fee, then the first \<open>limit\<close>.\<close>

definition pick_transactions :: "node \<Rightarrow> nat \<Rightarrow> transaction list" where
  "pick_transactions s limit = take limit (sort_key (\<lambda>tx. - fee tx) (mempool s))"

fun remove_mined :: "transaction list \<Rightarrow> transaction list \<Rightarrow> transaction list" where
  "remove_mined [] mp = mp"
| "remove_mined (tx # txs) mp = remove_mined txs (if tx_in tx mp then list_remove tx mp else mp)"

text \<open>
  \<open>mine\<close>: \<open>E 0\<close> is read by the reward transaction, \<open>E 1\<close> by the new block.  \<open>None\<close>
  is a proof-of-work search that does not return; an exception would leave the call
  before anything is changed and is returned as the error.
\<close>

definition mine :: "ext \<Rightarrow> readings \<Rightarrow> node \<Rightarrow> (error + node) option" where
  "mine X E s =
     (if \<not> is_miner s then Some (Inr s)
      else if mempool s = [] then Some (Inr s)
      else (let txs_to_mine = pick_transactions s (BLOCK_SIZE_LIMIT - 1)
            in if txs_to_mine = [] then Some (Inr s)
               else (let total_fees = sum_list (map fee txs_to_mine);
                         reward_tx = create_reward_transaction (E 0) (public_key_str s)
                                       MINING_REWARD total_fees;
                         all_txs = Tx reward_tx # map Tx txs_to_mine
                     in case last_block (chain s) of
                          Inl err \<Rightarrow> Some (Inl err)
                        | Inr lb \<Rightarrow>
                            (case proof_of_work
                                    (Block_init (E 1) (index lb + 1) all_txs (hash lb) JNull 0 None) of
                               None \<Rightarrow> None
                             | Some (new_block, block_hash) \<Rightarrow>
                                 (case add_block (chain s) (new_block\<lparr>hash := block_hash\<rparr>)
                                         (JStr block_hash) of
                                    Inl err \<Rightarrow> Some (Inl err)
                                  | Inr (appended, c) \<Rightarrow>
                                      if appended
                                      then Some (Inr (s\<lparr>chain := c,
                                                   mempool := remove_mined txs_to_mine (mempool s)\<rparr>))
                                      else Some (Inr s))))))"

text \<open>
  \<open>handle_connection\<close> on a decoded message.  Every exception is caught; \<open>get_chain\<close>
  and unknown types leave the state alone.
\<close>

definition typed_create :: "json \<Rightarrow> json \<Rightarrow> json \<Rightarrow> error + (string \<times> int \<times> int)" where
  "typed_create r a f =
     (case (as_str r, as_int a, as_int f) of
        (Some r', Some a', Some f') \<Rightarrow> Inr (r', a', f')
      | _ \<Rightarrow> Inl (OutsideModel ''create_transaction''))"

definition create_args :: "json \<Rightarrow> error + (string \<times> int \<times> int)" where
  "create_args msg =
     (case subscript msg ''receiver_pubkey'' of
        Inl err \<Rightarrow> Inl err
      | Inr r \<Rightarrow>
          (case subscript msg ''amount'' of
             Inl err \<Rightarrow> Inl err
           | Inr a \<Rightarrow>
               (case msg of
                  JObj kvs \<Rightarrow> typed_create r a (dict_get kvs ''fee'' (JInt 0))
                | _ \<Rightarrow> Inl TypeError)))"

definition handle_connection :: "ext \<Rightarrow> readings \<Rightarrow> responses \<Rightarrow> node \<Rightarrow> json \<Rightarrow> node option" where
  "handle_connection X E rs s msg =
     catch (subscript msg ''type'') s (\<lambda>t.
       if t = JStr ''transaction'' then
         catch (subscript msg ''data'') s (\<lambda>d.
           catch (Transaction_from_dict (E 0) d) s (\<lambda>tx.
             Some (snd (add_transaction X s tx))))
       else if t = JStr ''block'' then
         catch (subscript msg ''data'') s (\<lambda>d.
           catch (Block_from_dict E d) s (\<lambda>b.
             case receive_block X rs s b of
               None \<Rightarrow> None
             | Some (Inl err) \<Rightarrow> Some s
             | Some (Inr (appended, s')) \<Rightarrow> Some s'))
       else if t = JStr ''create_transaction'' then
         catch (create_args msg) s (\<lambda>(r, a, f).
           case create_and_sign_transaction X (E 0) s r a f of
             None \<Rightarrow> Some s
           | Some tx \<Rightarrow> Some (snd (add_transaction X s tx)))
       else Some s)"

text \<open>
  \<open>load_blockchain\<close> on the decoded content of \<open>blockchain.json\<close>, and the state
  \<open>Node.__init__\<close> leaves: the loaded chain if the file holds a valid one, the genesis
  chain otherwise.
\<close>

definition load_blockchain :: "(nat \<Rightarrow> readings) \<Rightarrow> node \<Rightarrow> json \<Rightarrow> node option" where
  "load_blockchain E s chain_data =
     (case chain_data of
        JList js \<Rightarrow>
          catch (blocks_from_dict E 0 js) s (\<lambda>new_chain.
            if is_valid_chain new_chain then Some (s\<lparr>chain := new_chain\<rparr>) else Some s)
      | _ \<Rightarrow> Some s)"

definition Node_init :: "string \<Rightarrow> bool \<Rightarrow> ((nat \<Rightarrow> readings) \<times> json) option \<Rightarrow> node option" where
  "Node_init pk miner file =
     (let s = \<lparr>chain = Blockchain_init, mempool = [], public_key_str = pk, is_miner = miner\<rparr>
      in case file of
           None \<Rightarrow> Some s
         | Some (E, chain_data) \<Rightarrow> load_blockchain E s chain_data)"

text \<open>
  The events of a node's life and the state machine they drive.  A call of \<open>mine\<close>
  that ends with an exception leaves the state as it is.
\<close>

datatype event =
    Connection readings responses json
  | Sync responses
  | Mine readings

fun step :: "ext \<Rightarrow> node \<Rightarrow> event \<Rightarrow> node option" where
  "step X s (Connection E rs msg) = handle_connection X E rs s msg"
| "step X s (Sync rs) = request_chain_from_peers X rs s"
| "step X s (Mine E) =
     (case mine X E s of
        None \<Rightarrow> None
      | Some (Inl err) \<Rightarrow> Some s
      | Some (Inr s') \<Rightarrow> Some s')"

fun run :: "ext \<Rightarrow> node \<Rightarrow> event list \<Rightarrow> node option" where
  "run X s [] = Some s"
| "run X s (ev # evs) = (case step X s ev of None \<Rightarrow> None | Some s' \<Rightarrow> run X s' evs)"

section \<open>Properties named by the specification\<close>

text \<open>
  The balance as the specification words it: 100, plus the amount of every
  transaction in a block after the first that names the key as receiver, minus amount
  and fee of every one that names it as sender.
\<close>

definition credit_debit :: "string \<Rightarrow> tx_item \<Rightarrow> int" where
  "credit_debit pk it =
     (case it of
        Tx tx \<Rightarrow> (if receiver_pubkey tx = pk then amount tx else 0)
                  - (if sender_pubkey tx = pk then amount tx + fee tx else 0)
      | Raw j \<Rightarrow> 0)"

definition spec_balance :: "block list \<Rightarrow> string \<Rightarrow> int" where
  "spec_balance c pk =
     100 + sum_list (map (\<lambda>b. sum_list (map (credit_debit pk) (transactions b))) (tl c))"

text \<open>The same with the sentinel \<open>COINBASE\<close> exempt from debits.\<close>

definition exempt_credit_debit :: "string \<Rightarrow> tx_item \<Rightarrow> int" where
  "exempt_credit_debit pk it =
     (case it of
        Tx tx \<Rightarrow> (if receiver_pubkey tx = pk then amount tx else 0)
                  - (if sender_pubkey tx = pk \<and> pk \<noteq> ''COINBASE'' then amount tx + fee tx else 0)
      | Raw j \<Rightarrow> 0)"

definition exempt_balance :: "block list \<Rightarrow> string \<Rightarrow> int" where
  "exempt_balance c pk =
     100 + sum_list (map (\<lambda>b. sum_list (map (exempt_credit_debit pk) (transactions b))) (tl c))"

text \<open>
  ECDSA verification of a transaction's signature against its signing payload and
  sender key.  A signature that is not text cannot be decoded and does not verify.
\<close>

definition signature_verifies :: "ext \<Rightarrow> transaction \<Rightarrow> bool" where
  "signature_verifies X tx =
     (case signature tx of
        JStr sg \<Rightarrow> ecdsa_verify X (sender_pubkey tx) sg (get_signing_data tx)
      | _ \<Rightarrow> False)"

text \<open>
  A transaction object as the constructor leaves it, and a block whose entries
  survive reconstruction: transactions of that kind, and plain entries that
  \<open>Block.from_dict\<close> does not take for a transaction.
\<close>

definition wf_tx :: "transaction \<Rightarrow> bool" where
  "wf_tx tx = (tx_id tx \<noteq> [] \<and> truthy (timestamp tx))"

definition wf_item :: "tx_item \<Rightarrow> bool" where
  "wf_item it = (case it of Tx tx \<Rightarrow> wf_tx tx | Raw j \<Rightarrow> \<not> has_key j ''tx_id'')"

definition wf_block :: "block \<Rightarrow> bool" where
  "wf_block b = (list_all wf_item (transactions b) \<and> block_timestamp b \<noteq> JNull)"

text \<open>
  Readings as \<open>time.time()\<close> and \<open>uuid.uuid4()\<close> give them: the clock does not read
  zero and the fresh identifier is not empty; and the same for all the readings of an
  event, of the answers of the peers and of the stored chain.
\<close>

definition sane_env :: "env \<Rightarrow> bool" where
  "sane_env e = (uuid e \<noteq> [] \<and> truthy (JFloat (now e)))"

definition sane_readings :: "readings \<Rightarrow> bool" where
  "sane_readings E = (\<forall>i. sane_env (E i))"

definition sane_responses :: "responses \<Rightarrow> bool" where
  "sane_responses rs = list_all (\<lambda>r. \<forall>j. sane_readings (fst r j)) rs"

definition sane_event :: "event \<Rightarrow> bool" where
  "sane_event ev =
     (case ev of
        Connection E rs msg \<Rightarrow> sane_readings E \<and> sane_responses rs
      | Sync rs \<Rightarrow> sane_responses rs
      | Mine E \<Rightarrow> sane_readings E)"

definition sane_stored :: "((nat \<Rightarrow> readings) \<times> json) option \<Rightarrow> bool" where
  "sane_stored stored = (case stored of None \<Rightarrow> True | Some f \<Rightarrow> \<forall>j. sane_readings (fst f j))"

text \<open>Every block of the chain and every transaction of the mempool is of that kind.\<close>

definition objects_wf :: "node \<Rightarrow> bool" where
  "objects_wf s = (list_all wf_block (chain s) \<and> list_all wf_tx (mempool s))"

text \<open>The \<open>repr\<close> of a float always shows a point, an exponent or \<open>inf\<close>/\<open>nan\<close>.\<close>

definition is_float_repr :: "string \<Rightarrow> bool" where
  "is_float_repr r = list_ex (\<lambda>c. c = CHR ''.'' \<or> c = CHR ''e'' \<or> c = CHR ''n'') r"

text \<open>Every transaction in the mempool names \<open>COINBASE\<close> as sender or carries a verifying signature.\<close>

definition mempool_verified :: "ext \<Rightarrow> node \<Rightarrow> bool" where
  "mempool_verified X s =
     list_all (\<lambda>tx. sender_pubkey tx = ''COINBASE'' \<or> signature_verifies X tx) (mempool s)"


text \<open>The same for the blocks after the first.\<close>

definition mempool_disjoint_later :: "node \<Rightarrow> bool" where
  "mempool_disjoint_later s =
     list_all (\<lambda>tx. tx_id tx \<notin> set (block_tx_ids (tl (chain s)))) (mempool s)"




section \<open>Concrete blocks and messages\<close>

text \<open>
  The data of the runs evaluated further down.  The nonces were found by the
  proof-of-work search; that the hashes are the digests of the blocks is proved below.
\<close>

definition reward_r1 :: transaction where
  "reward_r1 = \<lparr>tx_id = ''r1'', sender_pubkey = ''COINBASE'', receiver_pubkey = ''miner'',
     amount = 10, fee = 0, timestamp = JInt 1, signature = JStr ''COINBASE''\<rparr>"

definition unsigned_u1 :: transaction where
  "unsigned_u1 = \<lparr>tx_id = ''u1'', sender_pubkey = ''alice'', receiver_pubkey = ''bob'',
     amount = 5, fee = 0, timestamp = JInt 1, signature = JNull\<rparr>"

definition coinbase_t0 :: transaction where
  "coinbase_t0 = \<lparr>tx_id = ''t0'', sender_pubkey = ''COINBASE'', receiver_pubkey = ''mallory'',
     amount = 10, fee = 0, timestamp = JInt 1, signature = JStr ''COINBASE''\<rparr>"

definition genesis_hash :: string where
  "genesis_hash = ''77e5d351020ae399a4c6e6d92b333e1793cceb125953031a57c7f3108da6c873''"

definition hash_b1 :: string where
  "hash_b1 = ''00005936b73ad34f828010f39355b4cf413c4d02ed86d579149dd69e269fe9b2''"

definition hash_f1 :: string where
  "hash_f1 = ''0000943984c944bd8e2083be78e39454426f30e177e95a0193109e4caeba7be8''"

definition block_b1 :: block where
  "block_b1 = \<lparr>index = 1, block_timestamp = JInt 1,
     transactions = [Tx reward_r1, Tx unsigned_u1],
     prev_hash = genesis_hash, nonce = 26085,
     hash = hash_b1\<rparr>"

definition block_f0 :: block where
  "block_f0 = \<lparr>index = 0, block_timestamp = JInt 0, transactions = [Tx coinbase_t0],
     prev_hash = ''0'', nonce = 0, hash = ''f''\<rparr>"

definition block_f1 :: block where
  "block_f1 = \<lparr>index = 1, block_timestamp = JInt 1, transactions = [],
     prev_hash = ''f'', nonce = 96506, hash = hash_f1\<rparr>"

definition hash_c1 :: string where
  "hash_c1 = ''000084d3b0ae65caf8720141897a9bcae1f52ae65a87a6f959d81973cef54200''"

definition hash_c2 :: string where
  "hash_c2 = ''0000c4f25ece52c6bbf6bc88dad37e6229588c3a6e12d8ff59e0b6aefad2fdea''"

definition block_c1 :: block where
  "block_c1 = \<lparr>index = 1, block_timestamp = JInt 2, transactions = [],
     prev_hash = genesis_hash, nonce = 48183, hash = hash_c1\<rparr>"

definition block_c2 :: block where
  "block_c2 = \<lparr>index = 2, block_timestamp = JInt 3, transactions = [],
     prev_hash = hash_c1, nonce = 7443, hash = hash_c2\<rparr>"

text \<open>A verifier under which no signature verifies, and readings that are never consulted.\<close>

definition ext_reject :: ext where
  "ext_reject = \<lparr>ecdsa_verify = (\<lambda>pk sg msg. False), ecdsa_sign = (\<lambda>msg. []),
     set_rank = (\<lambda>i. 0)\<rparr>"

definition env0 :: env where
  "env0 = \<lparr>now = ''1700000000.5'', uuid = ''123e4567-e89b-42d3-a456-426614174000''\<rparr>"

definition node0 :: node where
  "node0 = \<lparr>chain = Blockchain_init, mempool = [], public_key_str = ''miner'', is_miner = False\<rparr>"

definition readings0 :: readings where
  "readings0 = (\<lambda>i. env0)"

text \<open>A transaction whose timestamp is the integer 0, and one with an empty identifier.\<close>

definition tx_zero_time :: transaction where
  "tx_zero_time = \<lparr>tx_id = ''z1'', sender_pubkey = ''alice'', receiver_pubkey = ''bob'',
     amount = 1, fee = 0, timestamp = JInt 0, signature = JStr ''00''\<rparr>"

definition ext_accept :: ext where
  "ext_accept = \<lparr>ecdsa_verify = (\<lambda>pk sg msg. True), ecdsa_sign = (\<lambda>msg. ''00''),
     set_rank = (\<lambda>i. 0)\<rparr>"

definition tx_signed :: transaction where
  "tx_signed = \<lparr>tx_id = ''s1'', sender_pubkey = ''alice'', receiver_pubkey = ''bob'',
     amount = 5, fee = 1, timestamp = JInt 1, signature = JStr ''00''\<rparr>"


definition msg_tx_signed :: json where
  "msg_tx_signed = JObj [(''type'', JStr ''transaction''), (''data'', Transaction_to_dict tx_signed)]"

definition msg_block_b1 :: json where
  "msg_block_b1 = JObj [(''type'', JStr ''block''), (''data'', Block_to_dict block_b1)]"

definition chain_data_f :: json where
  "chain_data_f = JList [Block_to_dict block_f0, Block_to_dict block_f1]"


definition chain_readings0 :: "nat \<Rightarrow> readings" where
  "chain_readings0 = (\<lambda>j. readings0)"

text \<open>A miner, and the readings of one call of \<open>mine\<close>.\<close>

definition miner0 :: node where
  "miner0 = \<lparr>chain = Blockchain_init, mempool = [], public_key_str = ''miner'', is_miner = True\<rparr>"

definition readings_mine :: readings where
  "readings_mine =
     (\<lambda>i. if i = 0 then \<lparr>now = ''1700000000.5'', uuid = ''e332ea25-dc6f-4940-b358-8b46d3ffd245''\<rparr>
          else \<lparr>now = ''1700000000.75'', uuid = ''123e4567-e89b-42d3-a456-426614174000''\<rparr>)"

definition reward_mined :: transaction where
  "reward_mined = \<lparr>tx_id = ''e332ea25-dc6f-4940-b358-8b46d3ffd245'', sender_pubkey = ''COINBASE'',
     receiver_pubkey = ''miner'', amount = 11, fee = 0, timestamp = JFloat ''1700000000.5'',
     signature = JStr ''COINBASE''\<rparr>"

definition hash_mined :: string where
  "hash_mined = ''0000485791630db4fefb33f4f2c6784013484ad41b898071df440b741f13f113''"

definition block_mined :: block where
  "block_mined = \<lparr>index = 1, block_timestamp = JFloat ''1700000000.75'',
     transactions = [Tx reward_mined, Tx tx_signed],
     prev_hash = genesis_hash, nonce = 1, hash = hash_mined\<rparr>"

section \<open>Evaluating digests\<close>

text \<open>
  The rules below restate the definitions of the digest on words written out bit by
  bit, so that the simplifier, given these rules only, computes the digest of a
  concrete message.
\<close>

lemma xor3_eval:
  "xor3 False False False = False" "xor3 False False True = True"
  "xor3 False True False = True" "xor3 False True True = False"
  "xor3 True False False = True" "xor3 True False True = False"
  "xor3 True True False = False" "xor3 True True True = True"
  by (simp_all add: xor3_def)

lemma chb_eval: "chb True b c = b" "chb False b c = c"
  by (simp_all add: chb_def)

lemma majb_eval:
  "majb False False c = False" "majb True True c = True"
  "majb False True c = c" "majb True False c = c"
  by (simp_all add: majb_def)

lemma big_sigma0_eval:
  "big_sigma0
     [b0, b1, b2, b3, b4, b5, b6, b7, b8, b9, b10, b11, b12, b13, b14, b15, b16, b17, b18, b19,
      b20, b21, b22, b23, b24, b25, b26, b27, b28, b29, b30, b31] =
     [xor3 b2 b13 b22, xor3 b3 b14 b23, xor3 b4 b15 b24, xor3 b5 b16 b25, xor3 b6 b17 b26,
      xor3 b7 b18 b27, xor3 b8 b19 b28, xor3 b9 b20 b29, xor3 b10 b21 b30, xor3 b11 b22 b31,
      xor3 b12 b23 b0, xor3 b13 b24 b1, xor3 b14 b25 b2, xor3 b15 b26 b3, xor3 b16 b27 b4,
      xor3 b17 b28 b5, xor3 b18 b29 b6, xor3 b19 b30 b7, xor3 b20 b31 b8, xor3 b21 b0 b9,
      xor3 b22 b1 b10, xor3 b23 b2 b11, xor3 b24 b3 b12, xor3 b25 b4 b13, xor3 b26 b5 b14,
      xor3 b27 b6 b15, xor3 b28 b7 b16, xor3 b29 b8 b17, xor3 b30 b9 b18, xor3 b31 b10 b19,
      xor3 b0 b11 b20, xor3 b1 b12 b21]"
  by (simp add: big_sigma0_def rotr_def)

lemma big_sigma1_eval:
  "big_sigma1
     [b0, b1, b2, b3, b4, b5, b6, b7, b8, b9, b10, b11, b12, b13, b14, b15, b16, b17, b18, b19,
      b20, b21, b22, b23, b24, b25, b26, b27, b28, b29, b30, b31] =
     [xor3 b6 b11 b25, xor3 b7 b12 b26, xor3 b8 b13 b27, xor3 b9 b14 b28, xor3 b10 b15 b29,
      xor3 b11 b16 b30, xor3 b12 b17 b31, xor3 b13 b18 b0, xor3 b14 b19 b1, xor3 b15 b20 b2,
      xor3 b16 b21 b3, xor3 b17 b22 b4, xor3 b18 b23 b5, xor3 b19 b24 b6, xor3 b20 b25 b7,
      xor3 b21 b26 b8, xor3 b22 b27 b9, xor3 b23 b28 b10, xor3 b24 b29 b11, xor3 b25 b30 b12,
      xor3 b26 b31 b13, xor3 b27 b0 b14, xor3 b28 b1 b15, xor3 b29 b2 b16, xor3 b30 b3 b17,
      xor3 b31 b4 b18, xor3 b0 b5 b19, xor3 b1 b6 b20, xor3 b2 b7 b21, xor3 b3 b8 b22,
      xor3 b4 b9 b23, xor3 b5 b10 b24]"
  by (simp add: big_sigma1_def rotr_def)

lemma small_sigma0_eval:
  "small_sigma0
     [b0, b1, b2, b3, b4, b5, b6, b7, b8, b9, b10, b11, b12, b13, b14, b15, b16, b17, b18, b19,
      b20, b21, b22, b23, b24, b25, b26, b27, b28, b29, b30, b31] =
     [xor3 b7 b18 b3, xor3 b8 b19 b4, xor3 b9 b20 b5, xor3 b10 b21 b6, xor3 b11 b22 b7,
      xor3 b12 b23 b8, xor3 b13 b24 b9, xor3 b14 b25 b10, xor3 b15 b26 b11, xor3 b16 b27 b12,
      xor3 b17 b28 b13, xor3 b18 b29 b14, xor3 b19 b30 b15, xor3 b20 b31 b16, xor3 b21 b0 b17,
      xor3 b22 b1 b18, xor3 b23 b2 b19, xor3 b24 b3 b20, xor3 b25 b4 b21, xor3 b26 b5 b22,
      xor3 b27 b6 b23, xor3 b28 b7 b24, xor3 b29 b8 b25, xor3 b30 b9 b26, xor3 b31 b10 b27,
      xor3 b0 b11 b28, xor3 b1 b12 b29, xor3 b2 b13 b30, xor3 b3 b14 b31, xor3 b4 b15 False,
      xor3 b5 b16 False, xor3 b6 b17 False]"
  by (simp add: small_sigma0_def rotr_def shr_def eval_nat_numeral)

lemma small_sigma1_eval:
  "small_sigma1
     [b0, b1, b2, b3, b4, b5, b6, b7, b8, b9, b10, b11, b12, b13, b14, b15, b16, b17, b18, b19,
      b20, b21, b22, b23, b24, b25, b26, b27, b28, b29, b30, b31] =
     [xor3 b17 b19 b10, xor3 b18 b20 b11, xor3 b19 b21 b12, xor3 b20 b22 b13, xor3 b21 b23 b14,
      xor3 b22 b24 b15, xor3 b23 b25 b16, xor3 b24 b26 b17, xor3 b25 b27 b18, xor3 b26 b28 b19,
      xor3 b27 b29 b20, xor3 b28 b30 b21, xor3 b29 b31 b22, xor3 b30 b0 b23, xor3 b31 b1 b24,
      xor3 b0 b2 b25, xor3 b1 b3 b26, xor3 b2 b4 b27, xor3 b3 b5 b28, xor3 b4 b6 b29,
      xor3 b5 b7 b30, xor3 b6 b8 b31, xor3 b7 b9 False, xor3 b8 b10 False, xor3 b9 b11 False,
      xor3 b10 b12 False, xor3 b11 b13 False, xor3 b12 b14 False, xor3 b13 b15 False,
      xor3 b14 b16 False, xor3 b15 b17 False, xor3 b16 b18 False]"
  by (simp add: small_sigma1_def rotr_def shr_def eval_nat_numeral)

lemma ch_eval:
  "map3 chb
     [x0, x1, x2, x3, x4, x5, x6, x7, x8, x9, x10, x11, x12, x13, x14, x15, x16, x17, x18, x19,
      x20, x21, x22, x23, x24, x25, x26, x27, x28, x29, x30, x31]
     [y0, y1, y2, y3, y4, y5, y6, y7, y8, y9, y10, y11, y12, y13, y14, y15, y16, y17, y18, y19,
      y20, y21, y22, y23, y24, y25, y26, y27, y28, y29, y30, y31]
     [z0, z1, z2, z3, z4, z5, z6, z7, z8, z9, z10, z11, z12, z13, z14, z15, z16, z17, z18, z19,
      z20, z21, z22, z23, z24, z25, z26, z27, z28, z29, z30, z31] =
     [chb x0 y0 z0, chb x1 y1 z1, chb x2 y2 z2, chb x3 y3 z3, chb x4 y4 z4, chb x5 y5 z5,
      chb x6 y6 z6, chb x7 y7 z7, chb x8 y8 z8, chb x9 y9 z9, chb x10 y10 z10, chb x11 y11 z11,
      chb x12 y12 z12, chb x13 y13 z13, chb x14 y14 z14, chb x15 y15 z15, chb x16 y16 z16,
      chb x17 y17 z17, chb x18 y18 z18, chb x19 y19 z19, chb x20 y20 z20, chb x21 y21 z21,
      chb x22 y22 z22, chb x23 y23 z23, chb x24 y24 z24, chb x25 y25 z25, chb x26 y26 z26,
      chb x27 y27 z27, chb x28 y28 z28, chb x29 y29 z29, chb x30 y30 z30, chb x31 y31 z31]"
  by simp

lemma maj_eval:
  "map3 majb
     [x0, x1, x2, x3, x4, x5, x6, x7, x8, x9, x10, x11, x12, x13, x14, x15, x16, x17, x18, x19,
      x20, x21, x22, x23, x24, x25, x26, x27, x28, x29, x30, x31]
     [y0, y1, y2, y3, y4, y5, y6, y7, y8, y9, y10, y11, y12, y13, y14, y15, y16, y17, y18, y19,
      y20, y21, y22, y23, y24, y25, y26, y27, y28, y29, y30, y31]
     [z0, z1, z2, z3, z4, z5, z6, z7, z8, z9, z10, z11, z12, z13, z14, z15, z16, z17, z18, z19,
      z20, z21, z22, z23, z24, z25, z26, z27, z28, z29, z30, z31] =
     [majb x0 y0 z0, majb x1 y1 z1, majb x2 y2 z2, majb x3 y3 z3, majb x4 y4 z4, majb x5 y5 z5,
      majb x6 y6 z6, majb x7 y7 z7, majb x8 y8 z8, majb x9 y9 z9, majb x10 y10 z10,
      majb x11 y11 z11, majb x12 y12 z12, majb x13 y13 z13, majb x14 y14 z14, majb x15 y15 z15,
      majb x16 y16 z16, majb x17 y17 z17, majb x18 y18 z18, majb x19 y19 z19, majb x20 y20 z20,
      majb x21 y21 z21, majb x22 y22 z22, majb x23 y23 z23, majb x24 y24 z24, majb x25 y25 z25,
      majb x26 y26 z26, majb x27 y27 z27, majb x28 y28 z28, majb x29 y29 z29, majb x30 y30 z30,
      majb x31 y31 z31]"
  by simp

lemma add32_eval: "add32 (a # as) (b # bs) = xor3 a b False # adc (majb a b False) as bs"
  by (simp add: add32_def)

lemma adc_eval:
  "adc c (a # as) (b # bs) = xor3 a b c # adc (majb a b c) as bs"
  "adc c [] [] = []"
  by simp_all

lemma next_w_eval:
  "next_w [w0, w1, w2, w3, w4, w5, w6, w7, w8, w9, w10, w11, w12, w13, w14, w15] =
     add32 (add32 (add32 (small_sigma1 w14) w9) (small_sigma0 w1)) w0"
  by (simp add: next_w_def)

lemma sha_rounds_eval:
  "sha_rounds s [w0, w1, w2, w3, w4, w5, w6, w7, w8, w9, w10, w11, w12, w13, w14, w15] (k # ks) =
     sha_rounds (sha_round s k w0)
       [w1, w2, w3, w4, w5, w6, w7, w8, w9, w10, w11, w12, w13, w14, w15,
        next_w [w0, w1, w2, w3, w4, w5, w6, w7, w8, w9, w10, w11, w12, w13, w14, w15]] ks"
  "sha_rounds s ws [] = s"
  by simp_all

lemma sha256_K_eval:
  "sha256_K =
     [[False, False, False, True, True, False, False, True, True, True, True, True, False, True, False, False, False, True, False, True, False, False, False, True, False, True, False, False, False, False, True, False],
      [True, False, False, False, True, False, False, True, False, False, True, False, False, False, True, False, True, True, True, False, True, True, False, False, True, False, False, False, True, True, True, False],
      [True, True, True, True, False, False, True, True, True, True, False, True, True, True, True, True, False, False, False, False, False, False, True, True, True, False, True, False, True, True, False, True],
      [True, False, True, False, False, True, False, True, True, True, False, True, True, False, True, True, True, False, True, False, True, True, False, True, True, False, False, True, False, True, True, True],
      [True, True, False, True, True, False, True, False, False, True, False, False, False, False, True, True, False, True, True, False, True, False, True, False, True, False, False, True, True, True, False, False],
      [True, False, False, False, True, True, True, True, True, False, False, False, True, False, False, False, True, False, False, False, True, True, True, True, True, False, False, True, True, False, True, False],
      [False, False, True, False, False, True, False, True, False, True, False, False, False, False, False, True, True, True, True, True, True, True, False, False, False, True, False, False, True, False, False, True],
      [True, False, True, False, True, False, True, True, False, True, True, True, True, False, True, False, False, False, True, True, True, False, False, False, True, True, False, True, False, True, False, True],
      [False, False, False, True, True, False, False, True, False, True, False, True, False, True, False, True, True, True, True, False, False, False, False, False, False, False, False, True, True, False, True, True],
      [True, False, False, False, False, False, False, False, True, True, False, True, True, False, True, False, True, True, False, False, False, False, False, True, False, True, False, False, True, False, False, False],
      [False, True, True, True, True, True, False, True, True, False, True, False, False, False, False, True, True, False, False, False, True, True, False, False, False, False, True, False, False, True, False, False],
      [True, True, False, False, False, False, True, True, True, False, True, True, True, True, True, False, False, False, True, True, False, False, False, False, True, False, True, False, True, False, True, False],
      [False, False, True, False, True, True, True, False, True, False, True, True, True, False, True, False, False, True, True, True, True, True, False, True, False, True, False, False, True, True, True, False],
      [False, True, True, True, True, True, True, True, True, False, False, False, True, True, False, True, False, True, True, True, True, False, True, True, False, False, False, False, False, False, False, True],
      [True, True, True, False, False, True, False, True, False, True, True, False, False, False, False, False, False, False, True, True, True, False, True, True, True, True, False, True, True, False, False, True],
      [False, False, True, False, True, True, True, False, True, False, False, False, True, True, True, True, True, True, False, True, True, False, False, True, True, False, False, False, False, False, True, True],
      [True, False, False, False, False, False, True, True, True, False, False, True, False, True, True, False, True, True, False, True, True, False, False, True, False, False, True, False, False, True, True, True],
      [False, True, True, False, False, False, False, True, True, True, True, False, False, False, True, False, False, True, True, True, True, True, False, True, True, True, True, True, False, True, True, True],
      [False, True, True, False, False, False, True, True, True, False, True, True, True, False, False, True, True, False, False, False, False, False, True, True, True, True, True, True, False, False, False, False],
      [False, False, True, True, False, False, True, True, True, False, False, False, False, True, False, True, False, False, True, True, False, False, False, False, False, False, True, False, False, True, False, False],
      [True, True, True, True, False, True, True, False, False, False, True, True, False, True, False, False, True, False, False, True, False, True, True, True, True, False, True, True, False, True, False, False],
      [False, True, False, True, False, True, False, True, False, False, True, False, False, False, False, True, False, False, True, False, True, True, True, False, False, True, False, True, False, False, True, False],
      [False, False, True, True, True, False, True, True, True, False, False, True, False, True, False, True, False, False, False, False, True, True, False, True, False, False, True, True, True, False, True, False],
      [False, True, False, True, True, False, True, True, False, False, False, True, False, False, False, True, True, False, False, True, True, True, True, True, False, True, True, False, True, True, True, False],
      [False, True, False, False, True, False, True, False, True, False, False, False, True, False, True, False, False, True, True, True, True, True, False, False, False, False, False, True, True, False, False, True],
      [True, False, True, True, False, True, True, False, False, True, True, False, False, False, True, True, True, False, False, False, True, True, False, False, False, False, False, True, False, True, False, True],
      [False, False, False, True, False, False, True, True, True, True, True, False, False, True, False, False, True, True, False, False, False, False, False, False, False, False, False, False, True, True, False, True],
      [True, True, True, False, False, False, True, True, True, True, True, True, True, True, True, False, True, False, False, True, True, False, True, False, True, True, True, True, True, True, False, True],
      [True, True, False, False, True, True, True, True, True, True, False, True, False, False, False, False, False, False, False, False, False, True, True, True, False, True, True, False, False, False, True, True],
      [True, True, True, False, False, False, True, False, True, False, False, False, True, False, False, True, True, True, True, False, False, True, False, True, True, False, True, False, True, False, True, True],
      [True, False, False, False, True, False, True, False, True, True, False, False, False, True, True, False, False, True, False, True, False, False, True, True, False, True, True, False, False, False, False, False],
      [True, True, True, False, False, True, True, False, True, False, False, True, False, True, False, False, True, False, False, True, False, True, False, False, False, False, True, False, True, False, False, False],
      [True, False, True, False, False, False, False, True, False, True, False, True, False, False, False, False, True, True, True, False, True, True, False, True, True, True, True, False, False, True, False, False],
      [False, False, False, True, True, True, False, False, True, False, False, False, False, True, False, False, True, True, False, True, True, False, False, False, False, True, True, True, False, True, False, False],
      [False, False, True, True, True, True, True, True, True, False, True, True, False, True, True, False, False, False, True, True, False, True, False, False, True, False, True, True, False, False, True, False],
      [True, True, False, False, True, False, False, False, True, False, True, True, False, False, False, False, False, False, False, True, True, True, False, False, True, True, False, False, True, False, True, False],
      [False, False, True, False, True, False, True, False, True, True, False, False, True, True, True, False, False, True, False, True, False, False, False, False, True, False, True, False, False, True, True, False],
      [True, True, False, True, True, True, False, True, False, True, False, True, False, False, False, False, False, True, False, True, False, True, True, False, False, True, True, False, True, True, True, False],
      [False, True, True, True, False, True, False, False, True, False, False, True, False, False, True, True, False, True, False, False, False, False, True, True, True, False, False, False, False, False, False, True],
      [True, False, True, False, False, False, False, True, False, False, True, True, False, True, False, False, False, True, False, False, True, True, True, False, False, True, False, False, True, False, False, True],
      [True, False, False, False, False, True, False, True, False, False, False, True, False, True, True, True, True, True, True, True, True, True, False, True, False, True, False, False, False, True, False, True],
      [True, True, False, True, False, False, True, False, False, True, True, False, False, True, True, False, False, True, False, True, True, False, False, False, False, False, False, True, False, True, False, True],
      [False, False, False, False, True, True, True, False, True, True, False, True, False, False, False, True, True, True, False, True, False, False, True, False, False, True, False, False, False, False, True, True],
      [True, True, False, False, False, True, False, True, True, False, False, False, True, False, True, False, False, False, True, True, False, True, True, False, True, True, True, False, False, False, True, True],
      [True, False, False, True, True, False, False, False, False, False, False, True, False, True, True, True, False, True, False, False, True, False, False, True, True, False, False, False, True, False, True, True],
      [False, False, True, False, False, True, False, False, False, True, True, False, False, False, False, False, True, False, False, True, True, False, False, True, False, True, True, False, True, False, True, True],
      [True, False, True, False, False, False, False, True, True, False, True, False, True, True, False, False, False, True, True, True, False, False, False, False, False, False, True, False, True, True, True, True],
      [False, False, False, False, True, True, True, False, False, False, False, False, False, True, False, True, False, True, False, True, False, True, True, False, False, False, False, False, True, False, False, False],
      [False, True, True, False, True, False, False, False, True, False, False, False, False, False, True, True, False, False, True, False, False, True, False, True, True, False, False, True, True, False, False, False],
      [False, False, False, True, False, False, False, False, False, False, True, True, False, True, True, False, True, True, True, False, True, True, False, False, False, True, True, True, True, False, False, False],
      [False, False, True, True, False, False, True, False, True, True, True, False, True, True, True, False, False, False, False, True, False, False, True, False, True, True, True, False, False, True, False, False],
      [True, False, True, False, True, True, False, True, False, False, True, True, True, True, False, True, False, False, False, False, True, True, False, True, False, False, True, False, True, True, False, False],
      [True, True, False, False, True, True, False, True, False, False, True, True, False, False, False, False, False, False, True, True, True, False, False, False, True, False, False, True, True, True, False, False],
      [False, True, False, True, False, False, True, False, False, True, False, True, False, True, False, True, False, False, False, True, True, False, True, True, False, True, True, True, False, False, True, False],
      [True, True, True, True, False, False, True, False, False, True, False, True, False, False, True, True, False, False, True, True, True, False, False, True, True, True, False, True, True, False, True, False],
      [True, True, False, False, True, True, True, True, True, True, True, True, False, True, True, False, False, True, True, True, False, True, False, False, False, False, False, True, False, True, True, False],
      [False, True, True, True, False, True, True, True, False, True, False, False, False, False, False, True, True, True, True, True, False, False, False, True, False, False, True, False, True, True, True, False],
      [True, True, True, True, False, True, True, False, True, True, False, False, False, True, True, False, True, False, True, False, False, True, False, True, False, False, False, True, True, True, True, False],
      [False, False, True, False, True, False, False, False, False, False, False, True, True, True, True, False, False, False, False, True, False, False, True, True, False, False, True, False, False, False, False, True],
      [False, False, False, True, False, False, False, False, False, True, False, False, False, False, False, False, True, True, True, False, False, False, True, True, False, False, True, True, False, False, False, True],
      [False, True, False, True, True, True, True, True, True, True, True, True, True, True, True, True, False, True, True, True, True, True, False, True, False, False, False, False, True, False, False, True],
      [True, True, False, True, False, True, True, True, False, False, True, True, False, True, True, False, False, False, False, False, True, False, True, False, False, False, True, False, False, True, False, True],
      [True, True, True, False, True, True, True, True, True, True, False, False, False, True, False, True, True, False, False, True, True, True, True, True, False, True, True, True, True, True, False, True],
      [False, True, False, False, True, True, True, True, False, False, False, True, True, True, True, False, True, False, False, False, True, True, True, False, False, True, True, False, False, False, True, True]]"
  by (simp add: sha256_K_def word32_of_def bits_of.simps)

lemma sha256_H0_eval:
  "sha256_H0 =
     [[True, True, True, False, False, True, True, False, False, True, True, False, False, True, True, True, True, False, False, True, False, False, False, False, False, True, False, True, False, True, True, False],
      [True, False, True, False, False, False, False, True, False, True, True, True, False, True, False, True, True, True, True, False, False, True, True, False, True, True, False, True, True, True, False, True],
      [False, True, False, False, True, True, True, False, True, True, False, False, True, True, True, True, False, True, True, True, False, True, True, False, False, False, True, True, True, True, False, False],
      [False, True, False, True, True, True, False, False, True, False, True, False, True, True, True, True, True, True, True, True, False, False, True, False, True, False, True, False, False, True, False, True],
      [True, True, True, True, True, True, True, False, False, True, False, False, True, False, True, False, False, True, True, True, False, False, False, False, True, False, False, False, True, False, True, False],
      [False, False, True, True, False, False, False, True, False, False, False, True, False, True, True, False, True, False, True, False, False, False, False, False, True, True, False, True, True, False, False, True],
      [True, True, False, True, False, True, False, True, True, False, False, True, True, False, True, True, True, True, False, False, False, False, False, True, True, True, True, True, True, False, False, False],
      [True, False, False, True, True, False, False, False, True, False, True, True, False, False, True, True, False, False, False, False, False, True, True, True, True, True, False, True, True, False, True, False]]"
  by (simp add: sha256_H0_def word32_of_def bits_of.simps)

lemma add_words_eval:
  "add_words [a, b, c, d, e, f, g, h] [a', b', c', d', e', f', g', h'] =
     [add32 a a', add32 b b', add32 c c', add32 d d', add32 e e', add32 f f', add32 g g',
      add32 h h']"
  by (simp add: add_words_def)

lemma sha_blocks_eval:
  "sha_blocks s (w0 # w1 # w2 # w3 # w4 # w5 # w6 # w7 # w8 # w9 # w10 # w11 # w12 # w13 # w14 # w15 # r) =
     sha_blocks (sha_compress s [w0, w1, w2, w3, w4, w5, w6, w7, w8, w9, w10, w11, w12, w13, w14, w15]) r"
  "sha_blocks s [] = s"
  by (subst sha_blocks.simps, simp)+

lemma be_words_eval:
  "be_words (Char p0 p1 p2 p3 p4 p5 p6 p7
       # Char q0 q1 q2 q3 q4 q5 q6 q7
       # Char r0 r1 r2 r3 r4 r5 r6 r7
       # Char s0 s1 s2 s3 s4 s5 s6 s7 # r) =
     [s0, s1, s2, s3, s4, s5, s6, s7, r0, r1, r2, r3, r4, r5, r6, r7, q0, q1, q2, q3, q4, q5, q6,
      q7, p0, p1, p2, p3, p4, p5, p6, p7] # be_words r"
  "be_words [] = []"
  by simp_all

lemma hex_word_eval:
  "hex_word 8
     [b0, b1, b2, b3, b4, b5, b6, b7, b8, b9, b10, b11, b12, b13, b14, b15, b16, b17, b18, b19,
      b20, b21, b22, b23, b24, b25, b26, b27, b28, b29, b30, b31] =
     [hex_digit [b28, b29, b30, b31], hex_digit [b24, b25, b26, b27],
      hex_digit [b20, b21, b22, b23], hex_digit [b16, b17, b18, b19],
      hex_digit [b12, b13, b14, b15], hex_digit [b8, b9, b10, b11], hex_digit [b4, b5, b6, b7],
      hex_digit [b0, b1, b2, b3]]"
  by (simp add: hex_word.simps)

lemma hex_digit_eval:
  "hex_digit [False, False, False, False] = CHR ''0''"
  "hex_digit [True, False, False, False] = CHR ''1''"
  "hex_digit [False, True, False, False] = CHR ''2''"
  "hex_digit [True, True, False, False] = CHR ''3''"
  "hex_digit [False, False, True, False] = CHR ''4''"
  "hex_digit [True, False, True, False] = CHR ''5''"
  "hex_digit [False, True, True, False] = CHR ''6''"
  "hex_digit [True, True, True, False] = CHR ''7''"
  "hex_digit [False, False, False, True] = CHR ''8''"
  "hex_digit [True, False, False, True] = CHR ''9''"
  "hex_digit [False, True, False, True] = CHR ''a''"
  "hex_digit [True, True, False, True] = CHR ''b''"
  "hex_digit [False, False, True, True] = CHR ''c''"
  "hex_digit [True, False, True, True] = CHR ''d''"
  "hex_digit [False, True, True, True] = CHR ''e''"
  "hex_digit [True, True, True, True] = CHR ''f''"
  by (simp_all add: hex_digit_def digit_char_def)

lemma count_length: "count n xs = n + length xs"
  by (induction xs arbitrary: n) auto

lemma length_count: "length xs = count 0 xs"
  by (simp add: count_length)

lemmas json_eval = dumps_int_def dec_digits.simps digit_char_def dumps_str_def escape_char_def
  sort_keys_def dumps_item_def dumps_float_def

lemmas pad_eval = sha256_hexdigest_def sha_pad_def be64_def length_count pad_zeros.simps
  byte_char_def

lemmas sha_eval = be_words_eval append.simps sha256_H0_eval sha_blocks_eval
  sha_compress_def add_words_eval sha256_K_eval sha_rounds_eval sha_round.simps Let_def next_w_eval
  add32_eval adc_eval big_sigma0_eval big_sigma1_eval small_sigma0_eval small_sigma1_eval
  ch_eval maj_eval xor3_eval chb_eval majb_eval list.map concat.simps hex_word_eval
  hex_digit_eval

section \<open>The digests of the concrete blocks\<close>

lemma genesis_block_hash: "generate_hash create_genesis_block = genesis_hash"
  apply (simp add: create_genesis_block_def Block_init_def generate_hash_def genesis_dict_def
      genesis_hash_def json_eval)
  apply (simp add: pad_eval)
  apply (simp only: sha_eval)
  done

lemma block_b1_hash: "generate_hash block_b1 = hash_b1"
  apply (simp add: block_b1_def reward_r1_def unsigned_u1_def genesis_hash_def hash_b1_def
      generate_hash_def Transaction_to_dict_def json_eval)
  apply (simp add: pad_eval)
  apply (simp only: sha_eval)
  done

lemma block_f1_hash: "generate_hash block_f1 = hash_f1"
  apply (simp add: block_f1_def hash_f1_def generate_hash_def json_eval)
  apply (simp add: pad_eval)
  apply (simp only: sha_eval)
  done

lemma block_c1_hash: "generate_hash block_c1 = hash_c1"
  apply (simp add: block_c1_def genesis_hash_def hash_c1_def generate_hash_def json_eval)
  apply (simp add: pad_eval)
  apply (simp only: sha_eval)
  done

lemma block_c2_hash: "generate_hash block_c2 = hash_c2"
  apply (simp add: block_c2_def hash_c1_def hash_c2_def generate_hash_def json_eval)
  apply (simp add: pad_eval)
  apply (simp only: sha_eval)
  done

lemma block_mined_nonce0_hash:
  "generate_hash (block_mined\<lparr>nonce := 0\<rparr>) =
     ''73557e7db3be2d9968c5cd8b90bcb6f2757f82002054166f8ff345bcb77c5f34''"
  apply (simp add: block_mined_def reward_mined_def tx_signed_def genesis_hash_def
      generate_hash_def Transaction_to_dict_def json_eval)
  apply (simp add: pad_eval)
  apply (simp only: sha_eval)
  done

lemma block_mined_hash: "generate_hash block_mined = hash_mined"
  apply (simp add: block_mined_def reward_mined_def tx_signed_def genesis_hash_def hash_mined_def
      generate_hash_def Transaction_to_dict_def json_eval)
  apply (simp add: pad_eval)
  apply (simp only: sha_eval)
  done

section \<open>Facts about the concrete blocks\<close>

lemma generate_hash_hash_update [simp]: "generate_hash (b\<lparr>hash := h\<rparr>) = generate_hash b"
  by (simp add: generate_hash_def)

lemma genesis_fields:
  "index create_genesis_block = 0"
  "block_timestamp create_genesis_block = JInt 0"
  "transactions create_genesis_block = [Raw genesis_dict]"
  "prev_hash create_genesis_block = ''0''"
  "nonce create_genesis_block = 0"
  "hash create_genesis_block = genesis_hash"
proof -
  have "hash create_genesis_block = generate_hash create_genesis_block"
    by (simp add: create_genesis_block_def Block_init_def Let_def generate_hash_def)
  then show "hash create_genesis_block = genesis_hash"
    by (simp add: genesis_block_hash)
qed (simp_all add: create_genesis_block_def Block_init_def Let_def)

lemma block_b1_fields:
  "index block_b1 = 1"
  "block_timestamp block_b1 = JInt 1"
  "transactions block_b1 = [Tx reward_r1, Tx unsigned_u1]"
  "prev_hash block_b1 = genesis_hash"
  "nonce block_b1 = 26085"
  "hash block_b1 = hash_b1"
  by (simp_all add: block_b1_def)

lemma block_f0_fields:
  "index block_f0 = 0"
  "block_timestamp block_f0 = JInt 0"
  "transactions block_f0 = [Tx coinbase_t0]"
  "prev_hash block_f0 = ''0''"
  "nonce block_f0 = 0"
  "hash block_f0 = ''f''"
  by (simp_all add: block_f0_def)

lemma block_f1_fields:
  "index block_f1 = 1"
  "block_timestamp block_f1 = JInt 1"
  "transactions block_f1 = []"
  "prev_hash block_f1 = ''f''"
  "nonce block_f1 = 96506"
  "hash block_f1 = hash_f1"
  by (simp_all add: block_f1_def)

lemma block_c1_fields:
  "index block_c1 = 1"
  "block_timestamp block_c1 = JInt 2"
  "transactions block_c1 = []"
  "prev_hash block_c1 = genesis_hash"
  "nonce block_c1 = 48183"
  "hash block_c1 = hash_c1"
  by (simp_all add: block_c1_def)

lemma block_c2_fields:
  "index block_c2 = 2"
  "block_timestamp block_c2 = JInt 3"
  "transactions block_c2 = []"
  "prev_hash block_c2 = hash_c1"
  "nonce block_c2 = 7443"
  "hash block_c2 = hash_c2"
  by (simp_all add: block_c2_def)

lemma block_mined_fields:
  "index block_mined = 1"
  "block_timestamp block_mined = JFloat ''1700000000.75''"
  "transactions block_mined = [Tx reward_mined, Tx tx_signed]"
  "prev_hash block_mined = genesis_hash"
  "nonce block_mined = 1"
  "hash block_mined = hash_mined"
  by (simp_all add: block_mined_def)

lemma meets_difficulty_hashes:
  "meets_difficulty hash_b1" "meets_difficulty hash_f1" "meets_difficulty hash_c1"
  "meets_difficulty hash_c2" "meets_difficulty hash_mined"
  by (simp_all add: meets_difficulty_def startswith_def difficulty_def hash_b1_def hash_f1_def
      hash_c1_def hash_c2_def hash_mined_def eval_nat_numeral)

lemmas block_facts = genesis_fields block_b1_fields block_f0_fields block_f1_fields
  block_c1_fields block_c2_fields block_mined_fields meets_difficulty_hashes
  block_b1_hash block_f1_hash block_c1_hash block_c2_hash block_mined_hash

lemma valid_chain_genesis: "is_valid_chain Blockchain_init"
  by (simp add: is_valid_chain_def Blockchain_init_def block_facts)

lemma valid_chain_g_b1: "is_valid_chain [create_genesis_block, block_b1]"
  by (simp add: is_valid_chain_def block_facts)

lemma valid_chain_f: "is_valid_chain [block_f0, block_f1]"
  by (simp add: is_valid_chain_def block_facts)


section \<open>The chain engine\<close>



text \<open>
  C2 (as amended).  On a non-empty chain (every chain of a \<open>Blockchain\<close> object is),
  \<open>add_block(b, block_hash)\<close> returns false when \<open>b.prev_hash\<close> is not the tip's hash.
  When it is and \<open>block_hash\<close> is text, the call appends \<open>b\<close> with that hash and returns
  true exactly when the text starts with \<open>difficulty\<close> zeros and is the canonical hash
  of \<open>b\<close>, and returns false otherwise.  When it is and \<open>block_hash\<close> is not text, the
  call raises \<open>AttributeError\<close>.  Whenever it returns false the chain is unchanged, and
  nothing has been changed when it raises.
\<close>

theorem add_block_iff:
  assumes "local \<noteq> []"
  shows "add_block local b block_hash =
           (if prev_hash b \<noteq> hash (last local) then Inr (False, local)
            else (case block_hash of
                    JStr h \<Rightarrow>
                      Inr (if meets_difficulty h \<and> h = generate_hash b
                           then (True, local @ [b\<lparr>hash := h\<rparr>]) else (False, local))
                  | _ \<Rightarrow> Inl AttributeError))"
  using assms by (auto simp add: add_block_def is_valid_block_def split: json.splits)

theorem add_block_iff_witness:
  "Blockchain_init \<noteq> []
   \<and> add_block Blockchain_init block_b1 (JStr (hash block_b1)) =
       Inr (True, Blockchain_init @ [block_b1])
   \<and> add_block Blockchain_init block_c2 (JInt 5) = Inr (False, Blockchain_init)"
proof -
  have ne: "Blockchain_init \<noteq> []"
    by (simp add: Blockchain_init_def)
  have p1: "prev_hash block_b1 = hash (last Blockchain_init)"
    by (simp add: Blockchain_init_def block_facts)
  have p2: "prev_hash block_c2 \<noteq> hash (last Blockchain_init)"
    by (simp add: Blockchain_init_def block_facts hash_c1_def genesis_hash_def)
  have eq: "block_b1\<lparr>hash := hash_b1\<rparr> = block_b1"
    by (simp add: block_b1_def)
  from add_block_iff [OF ne, of block_b1 "JStr (hash block_b1)"] p1
  have "add_block Blockchain_init block_b1 (JStr (hash block_b1)) =
          Inr (True, Blockchain_init @ [block_b1])"
    by (simp add: block_facts eq)
  moreover from add_block_iff [OF ne, of block_c2 "JInt 5"] p2
  have "add_block Blockchain_init block_c2 (JInt 5) = Inr (False, Blockchain_init)"
    by simp
  ultimately show ?thesis
    using ne by simp
qed

text \<open>
  C2 as stated fails: \<open>add_block\<close> can raise.  \<open>Block.from_dict\<close> keeps the \<open>hash\<close> entry
  of a received dictionary as it is and \<open>receive_block\<close> passes it on as \<open>block_hash\<close>.
  For a block that names the genesis hash as \<open>prev_hash\<close> and was received with the
  number 5 as \<open>hash\<close>, the call on the chain of a fresh node reaches
  \<open>block_hash.startswith\<close> and raises \<open>AttributeError\<close>.
\<close>

theorem add_block_raises:
  "prev_hash block_b1 = hash (last Blockchain_init)
   \<and> is_valid_block block_b1 (JInt 5) = Inl AttributeError
   \<and> add_block Blockchain_init block_b1 (JInt 5) = Inl AttributeError"
  by (simp add: add_block_def is_valid_block_def Blockchain_init_def block_facts)

section \<open>Balances\<close>

lemma fold_balance_item:
  "fold (balance_item pk) its bal = bal + sum_list (map (credit_debit pk) its)"
proof (induction its arbitrary: bal)
  case Nil
  then show ?case by simp
next
  case (Cons it its)
  show ?case
    by (cases it) (simp_all add: Cons.IH credit_debit_def Let_def)
qed

lemma fold_balance_blocks:
  "fold (\<lambda>b balance. fold (balance_item pk) (transactions b) balance) bs bal =
     bal + sum_list (map (\<lambda>b. sum_list (map (credit_debit pk) (transactions b))) bs)"
  by (induction bs arbitrary: bal) (simp_all add: fold_balance_item)

text \<open>
  C8 (as amended).  For every key \<open>pk\<close>, the literal \<open>COINBASE\<close> included,
  \<open>get_balance(pk)\<close> is 100 plus, over every transaction in every block after the
  first, the amount when \<open>pk\<close> is the receiver, minus amount and fee when \<open>pk\<close> is
  the sender.
\<close>

theorem get_balance_formula: "get_balance c pk = spec_balance c pk"
  by (simp add: get_balance_def spec_balance_def fold_balance_blocks)

theorem get_balance_formula_witness:
  "get_balance [create_genesis_block, block_b1] ''miner'' = 110
   \<and> spec_balance [create_genesis_block, block_b1] ''miner'' = 110"
  using get_balance_formula [of "[create_genesis_block, block_b1]" "''miner''"]
  by (simp add: spec_balance_def credit_debit_def block_facts reward_r1_def unsigned_u1_def)

text \<open>
  C8 as stated fails: on the chain of the genesis block and \<open>block_b1\<close>,
  \<open>get_balance("COINBASE")\<close> is 90, debited by the reward transaction, where a
  balance exempt from debits would be 100.
\<close>

theorem get_balance_coinbase_debited:
  "get_balance [create_genesis_block, block_b1] ''COINBASE'' = 90
   \<and> exempt_balance [create_genesis_block, block_b1] ''COINBASE'' = 100"
  by (simp add: get_balance_def exempt_balance_def exempt_credit_debit_def block_facts
      reward_r1_def unsigned_u1_def)

section \<open>Serialisation and reconstruction\<close>

lemma from_dict_to_dict:
  "Transaction_from_dict e (Transaction_to_dict tx) =
     Inr (tx\<lparr>tx_id := (if tx_id tx \<noteq> [] then tx_id tx else uuid e),
             timestamp := (if truthy (timestamp tx) then timestamp tx else JFloat (now e))\<rparr>)"
  by (simp add: Transaction_from_dict_def Transaction_to_dict_def typed_transaction_def
      dict_get_def as_str_def as_int_def as_opt_str_def Transaction_init_def)

lemma from_dict_to_dict_wf:
  "wf_tx tx \<Longrightarrow> Transaction_from_dict e (Transaction_to_dict tx) = Inr tx"
  by (simp add: from_dict_to_dict wf_tx_def)

lemma typed_transaction_Inr:
  assumes "typed_transaction e s r a f i sg ts = Inr tx"
  shows "\<exists>s' r' a' f' i'. as_str s = Some s' \<and> as_str r = Some r' \<and> as_int a = Some a'
           \<and> as_int f = Some f' \<and> as_opt_str i = Some i'
           \<and> tx = Transaction_init e s' r' a' f' i' sg ts"
  using assms by (simp add: typed_transaction_def split: option.splits)

lemma from_dict_Inr:
  assumes "Transaction_from_dict e (JObj kvs) = Inr tx"
  shows "\<exists>s r a i. map_of kvs ''sender_pubkey'' = Some s \<and> map_of kvs ''receiver_pubkey'' = Some r
           \<and> map_of kvs ''amount'' = Some a \<and> map_of kvs ''tx_id'' = Some i
           \<and> typed_transaction e s r a (dict_get kvs ''fee'' (JInt 0)) i
                 (dict_get kvs ''signature'' JNull) (dict_get kvs ''timestamp'' JNull) = Inr tx"
  using assms by (simp add: Transaction_from_dict_def split: option.splits)

lemma from_dict_fields:
  assumes "Transaction_from_dict e (JObj kvs) = Inr tx"
  shows "timestamp tx =
           (if truthy (dict_get kvs ''timestamp'' JNull) then dict_get kvs ''timestamp'' JNull
            else JFloat (now e))"
    and "map_of kvs ''tx_id'' = Some (JStr i) \<Longrightarrow> tx_id tx = (if i \<noteq> [] then i else uuid e)"
    and "sender_pubkey tx = s \<Longrightarrow> map_of kvs ''sender_pubkey'' = Some (JStr s)"
proof -
  from from_dict_Inr [OF assms] obtain s0 r a i0 where
    m: "map_of kvs ''sender_pubkey'' = Some s0" "map_of kvs ''tx_id'' = Some i0" and
    t: "typed_transaction e s0 r a (dict_get kvs ''fee'' (JInt 0)) i0
         (dict_get kvs ''signature'' JNull) (dict_get kvs ''timestamp'' JNull) = Inr tx"
    by blast
  from typed_transaction_Inr [OF t] obtain s' r' a' f' i' where
    a: "as_str s0 = Some s'" "as_opt_str i0 = Some i'" and
    tx: "tx = Transaction_init e s' r' a' f' i' (dict_get kvs ''signature'' JNull)
           (dict_get kvs ''timestamp'' JNull)"
    by blast
  show "timestamp tx =
           (if truthy (dict_get kvs ''timestamp'' JNull) then dict_get kvs ''timestamp'' JNull
            else JFloat (now e))"
    by (simp add: tx Transaction_init_def)
  show "tx_id tx = (if i \<noteq> [] then i else uuid e)" if "map_of kvs ''tx_id'' = Some (JStr i)"
    using that m(2) a(2) by (auto simp add: tx Transaction_init_def as_opt_str_def)
  show "map_of kvs ''sender_pubkey'' = Some (JStr s)" if "sender_pubkey tx = s"
    using that m(1) a(1) by (auto simp add: tx Transaction_init_def as_str_def split: json.splits)
qed

lemma dumps_float_cases:
  "dumps_float r = ''NaN'' \<or> dumps_float r = ''Infinity'' \<or> dumps_float r = ''-Infinity''
   \<or> dumps_float r = r"
  unfolding dumps_float_def by presburger

lemma dumps_float_not_zero:
  assumes "is_float_repr r" "truthy (JFloat r)"
  shows "dumps_float r \<noteq> ''0''" "dumps_float r \<noteq> ''0.0''" "dumps_float r \<noteq> ''-0.0''"
proof -
  have r: "r \<noteq> ''0''" "r \<noteq> ''0.0''" "r \<noteq> ''-0.0''"
    using assms by (auto simp add: is_float_repr_def)
  have n: "''NaN'' \<noteq> ''0''" "''NaN'' \<noteq> ''0.0''" "''NaN'' \<noteq> ''-0.0''"
    "''Infinity'' \<noteq> ''0''" "''Infinity'' \<noteq> ''0.0''" "''Infinity'' \<noteq> ''-0.0''"
    "''-Infinity'' \<noteq> ''0''" "''-Infinity'' \<noteq> ''0.0''" "''-Infinity'' \<noteq> ''-0.0''"
    by simp_all
  show "dumps_float r \<noteq> ''0''"
    using dumps_float_cases [of r] r(1) n(1,4,7) by metis
  show "dumps_float r \<noteq> ''0.0''"
    using dumps_float_cases [of r] r(2) n(2,5,8) by metis
  show "dumps_float r \<noteq> ''-0.0''"
    using dumps_float_cases [of r] r(3) n(3,6,9) by metis
qed

lemma dumps_int_zero: "dumps_int 0 = ''0''"
  by (simp add: dumps_int_def dec_digits.simps digit_char_def)

lemma signing_data_timestamp:
  "get_signing_data (tx\<lparr>timestamp := ts\<rparr>) = get_signing_data tx
     \<longleftrightarrow> json_dumps ts = json_dumps (timestamp tx)"
  by (simp add: get_signing_data_def sort_keys_def dumps_item_def)

lemma escape_char_nonempty: "escape_char c \<noteq> []"
  by (simp add: escape_char_def Let_def)

lemma dumps_str_empty_iff: "dumps_str s = dumps_str [] \<longleftrightarrow> s = []"
proof (cases s)
  case Nil
  then show ?thesis by simp
next
  case (Cons c cs)
  then show ?thesis
    using escape_char_nonempty [of c] by (auto simp add: dumps_str_def)
qed

lemma signing_data_tx_id:
  "get_signing_data (tx\<lparr>tx_id := i\<rparr>) = get_signing_data tx
     \<longleftrightarrow> dumps_str i = dumps_str (tx_id tx)"
  by (simp add: get_signing_data_def sort_keys_def dumps_item_def)

text \<open>
  C10.  With a clock that reads a non-zero time and a non-empty fresh identifier:
  \<open>Transaction.from_dict\<close> keeps a truthy timestamp of the dictionary and replaces a
  timestamp 0 or 0.0 by the clock's reading; so \<open>from_dict(to_dict(tx))\<close> is \<open>tx\<close>
  when timestamp and identifier are truthy, has another timestamp and another
  signing payload when the timestamp of \<open>tx\<close> is 0 or 0.0, and has the fresh
  identifier and another signing payload when the identifier of \<open>tx\<close> is empty.
\<close>

theorem from_dict_falsy_fields:
  assumes "is_float_repr (now e)" and "truthy (JFloat (now e))" and "uuid e \<noteq> []"
  shows "(Transaction_from_dict e (JObj kvs) = Inr tx1
            \<and> map_of kvs ''timestamp'' = Some ts \<and> truthy ts \<longrightarrow> timestamp tx1 = ts)
       \<and> (Transaction_from_dict e (JObj kvs) = Inr tx1
            \<and> map_of kvs ''timestamp'' = Some ts \<and> (ts = JInt 0 \<or> ts = JFloat ''0.0'')
          \<longrightarrow> timestamp tx1 = JFloat (now e))
       \<and> (truthy (timestamp tx) \<and> tx_id tx \<noteq> []
          \<longrightarrow> Transaction_from_dict e (Transaction_to_dict tx) = Inr tx)
       \<and> ((timestamp tx = JInt 0 \<or> timestamp tx = JFloat ''0.0'') \<and> tx_id tx \<noteq> []
          \<longrightarrow> Transaction_from_dict e (Transaction_to_dict tx)
                = Inr (tx\<lparr>timestamp := JFloat (now e)\<rparr>)
              \<and> JFloat (now e) \<noteq> timestamp tx
              \<and> get_signing_data (tx\<lparr>timestamp := JFloat (now e)\<rparr>) \<noteq> get_signing_data tx)
       \<and> (tx_id tx = [] \<and> truthy (timestamp tx)
          \<longrightarrow> Transaction_from_dict e (Transaction_to_dict tx) = Inr (tx\<lparr>tx_id := uuid e\<rparr>)
              \<and> get_signing_data (tx\<lparr>tx_id := uuid e\<rparr>) \<noteq> get_signing_data tx)"
proof (intro conjI impI)
  assume "Transaction_from_dict e (JObj kvs) = Inr tx1 \<and> map_of kvs ''timestamp'' = Some ts
    \<and> truthy ts"
  then show "timestamp tx1 = ts"
    using from_dict_fields(1) [of e kvs tx1] by (simp add: dict_get_def)
next
  assume "Transaction_from_dict e (JObj kvs) = Inr tx1 \<and> map_of kvs ''timestamp'' = Some ts
    \<and> (ts = JInt 0 \<or> ts = JFloat ''0.0'')"
  then show "timestamp tx1 = JFloat (now e)"
    using from_dict_fields(1) [of e kvs tx1] by (auto simp add: dict_get_def)
next
  assume "truthy (timestamp tx) \<and> tx_id tx \<noteq> []"
  then show "Transaction_from_dict e (Transaction_to_dict tx) = Inr tx"
    by (simp add: from_dict_to_dict)
next
  assume a: "(timestamp tx = JInt 0 \<or> timestamp tx = JFloat ''0.0'') \<and> tx_id tx \<noteq> []"
  then show "Transaction_from_dict e (Transaction_to_dict tx)
      = Inr (tx\<lparr>timestamp := JFloat (now e)\<rparr>)"
    by (auto simp add: from_dict_to_dict)
  from a assms(2) show "JFloat (now e) \<noteq> timestamp tx"
    by auto
  from a show "get_signing_data (tx\<lparr>timestamp := JFloat (now e)\<rparr>) \<noteq> get_signing_data tx"
    using dumps_float_not_zero [OF assms(1,2)]
    by (auto simp add: signing_data_timestamp dumps_int_zero dumps_float_def)
next
  assume a: "tx_id tx = [] \<and> truthy (timestamp tx)"
  then show "Transaction_from_dict e (Transaction_to_dict tx) = Inr (tx\<lparr>tx_id := uuid e\<rparr>)"
    by (simp add: from_dict_to_dict)
  from a assms(3) show "get_signing_data (tx\<lparr>tx_id := uuid e\<rparr>) \<noteq> get_signing_data tx"
    by (simp add: signing_data_tx_id dumps_str_empty_iff)
qed

theorem from_dict_falsy_fields_witness:
  "is_float_repr (now env0) \<and> truthy (JFloat (now env0)) \<and> uuid env0 \<noteq> []
   \<and> timestamp tx_zero_time = JInt 0 \<and> tx_id tx_zero_time \<noteq> []
   \<and> Transaction_from_dict env0 (Transaction_to_dict tx_zero_time)
       = Inr (tx_zero_time\<lparr>timestamp := JFloat ''1700000000.5''\<rparr>)
   \<and> get_signing_data (tx_zero_time\<lparr>timestamp := JFloat ''1700000000.5''\<rparr>)
       \<noteq> get_signing_data tx_zero_time"
proof -
  have h: "is_float_repr (now env0)" "truthy (JFloat (now env0))" "uuid env0 \<noteq> []"
    by (simp_all add: env0_def is_float_repr_def)
  have t: "timestamp tx_zero_time = JInt 0" "tx_id tx_zero_time \<noteq> []"
    by (simp_all add: tx_zero_time_def)
  have n: "now env0 = ''1700000000.5''"
    by (simp add: env0_def)
  from from_dict_falsy_fields [OF h, of _ _ _ tx_zero_time] h t show ?thesis
    unfolding n by blast
qed

lemma item_roundtrip: "wf_item it \<Longrightarrow> item_from_dict e (item_to_dict it) = Inr it"
proof (cases it)
  case (Tx tx)
  assume "wf_item it"
  with Tx have "wf_tx tx"
    by (simp add: wf_item_def)
  moreover have "has_key (Transaction_to_dict tx) ''tx_id''"
    by (simp add: has_key_def Transaction_to_dict_def)
  ultimately show ?thesis
    using Tx by (simp add: item_from_dict_def from_dict_to_dict_wf)
next
  case (Raw j)
  assume "wf_item it"
  with Raw show ?thesis
    by (simp add: wf_item_def item_from_dict_def)
qed

lemma items_roundtrip:
  "list_all wf_item its \<Longrightarrow> items_from_dict E i (map item_to_dict its) = Inr its"
  by (induction its arbitrary: i) (simp_all add: item_roundtrip)

lemma block_roundtrip:
  assumes "wf_block b"
  shows "Block_from_dict E (Block_to_dict b) = Inr b"
proof -
  from assms have its: "items_from_dict E 1 (map item_to_dict (transactions b)) = Inr (transactions b)"
    and ts: "block_timestamp b \<noteq> JNull"
    by (simp_all add: wf_block_def items_roundtrip)
  have eq: "\<lparr>index = index b, block_timestamp = block_timestamp b, transactions = transactions b,
             prev_hash = prev_hash b, nonce = nonce b, hash = hash b\<rparr> = b"
    by (cases b) simp
  show ?thesis
    using ts its
    by (simp add: Block_from_dict_def Block_to_dict_def typed_block_def dict_get_def
          as_str_def as_int_def as_opt_str_def Block_init_def Let_def eq)
qed


section \<open>The shape of the node's operations\<close>

lemma catch_Some:
  assumes "catch r s k = Some s'"
  shows "s' = s \<or> (\<exists>v. r = Inr v \<and> k v = Some s')"
  using assms by (auto simp add: catch_def split: sum.splits error.splits)

lemma add_transaction_cases:
  "add_transaction X s tx = (False, s)
   \<or> (add_transaction X s tx = (True, s\<lparr>mempool := mempool s @ [tx]\<rparr>)
      \<and> \<not> in_chain (chain s) tx \<and> verify_transaction X s tx \<and> \<not> tx_in tx (mempool s))"
  by (simp add: add_transaction_def)

lemma add_block_True:
  assumes "add_block c b (JStr h) = Inr (True, c')"
  shows "c \<noteq> [] \<and> c' = c @ [b\<lparr>hash := h\<rparr>] \<and> prev_hash b = hash (last c)
         \<and> meets_difficulty h \<and> generate_hash b = h"
  using assms by (auto simp add: add_block_def is_valid_block_def split: if_splits)

lemma add_block_False:
  assumes "add_block c b v = Inr (False, c')"
  shows "c' = c"
  using assms
  by (auto simp add: add_block_def is_valid_block_def split: if_splits json.splits)

lemma add_block_text:
  assumes "add_block c b v = Inr (True, c')"
  shows "\<exists>h. v = JStr h"
  using assms
  by (auto simp add: add_block_def is_valid_block_def split: if_splits json.splits)

lemma handle_chain_response_origin:
  assumes "handle_chain_response X E s d = Some s'"
  shows "s' = s \<or> (\<exists>js c. d = JList js \<and> blocks_from_dict E 0 js = Inr c \<and> s' = adopt_chain X s c)"
proof (cases d)
  case (JList js)
  with assms have "catch (blocks_from_dict E 0 js) s (\<lambda>c. Some (adopt_chain X s c)) = Some s'"
    by (simp add: handle_chain_response_def)
  from catch_Some [OF this] JList show ?thesis
    by auto
qed (use assms in \<open>simp_all add: handle_chain_response_def\<close>)

lemma handle_chain_response_cases:
  assumes "handle_chain_response X E s d = Some s'"
  shows "s' = s \<or> (\<exists>c. s' = adopt_chain X s c)"
  using handle_chain_response_origin [OF assms] by blast

lemma sync_invariant:
  assumes adopt: "\<And>s c. P s \<Longrightarrow> P (adopt_chain X s c)"
    and "P s" and "request_chain_from_peers X rs s = Some s'"
  shows "P s'"
  using assms(2,3)
proof (induction rs arbitrary: s)
  case Nil
  then show ?case by simp
next
  case (Cons r rs)
  obtain E d where r: "r = (E, d)"
    by (cases r)
  from Cons.prems(2) r obtain s1 where
    h: "handle_chain_response X E s d = Some s1" and
    rest: "request_chain_from_peers X rs s1 = Some s'"
    by (auto split: option.splits)
  from handle_chain_response_cases [OF h] Cons.prems(1) adopt have "P s1"
    by auto
  with rest show ?case
    by (rule Cons.IH [rotated])
qed

lemma receive_block_cases:
  assumes "receive_block X rs s b = Some (Inr (r, s'))"
  shows "(\<exists>c. add_block (chain s) b (JStr (hash b)) = Inr (True, c)
            \<and> s' = s\<lparr>chain := c, mempool := remove_included (transactions b) (mempool s)\<rparr>)
         \<or> request_chain_from_peers X rs s = Some s'"
  using assms
  by (auto simp add: receive_block_def split: sum.splits if_splits option.splits)

lemma handle_connection_origin:
  assumes "handle_connection X E rs s msg = Some s'"
  shows "s' = s
         \<or> (\<exists>d tx. Transaction_from_dict (E 0) d = Inr tx \<and> s' = snd (add_transaction X s tx))
         \<or> (\<exists>r a f tx. create_and_sign_transaction X (E 0) s r a f = Some tx
                \<and> s' = snd (add_transaction X s tx))
         \<or> (\<exists>d b r. Block_from_dict E d = Inr b \<and> receive_block X rs s b = Some (Inr (r, s')))"
proof -
  from catch_Some [OF assms [unfolded handle_connection_def]]
  consider "s' = s"
    | t where "(if t = JStr ''transaction'' then
         catch (subscript msg ''data'') s (\<lambda>d.
           catch (Transaction_from_dict (E 0) d) s (\<lambda>tx.
             Some (snd (add_transaction X s tx))))
       else if t = JStr ''block'' then
         catch (subscript msg ''data'') s (\<lambda>d.
           catch (Block_from_dict E d) s (\<lambda>b.
             case receive_block X rs s b of
               None \<Rightarrow> None
             | Some (Inl err) \<Rightarrow> Some s
             | Some (Inr (appended, s')) \<Rightarrow> Some s'))
       else if t = JStr ''create_transaction'' then
         catch (create_args msg) s (\<lambda>(r, a, f).
           case create_and_sign_transaction X (E 0) s r a f of
             None \<Rightarrow> Some s
           | Some tx \<Rightarrow> Some (snd (add_transaction X s tx)))
       else Some s) = Some s'"
    by blast
  then show ?thesis
  proof cases
    case 1
    then show ?thesis by simp
  next
    case 2
    show ?thesis
    proof (cases "t = JStr ''transaction''")
      case True
      with 2 have "catch (subscript msg ''data'') s (\<lambda>d.
           catch (Transaction_from_dict (E 0) d) s (\<lambda>tx.
             Some (snd (add_transaction X s tx)))) = Some s'"
        by simp
      from catch_Some [OF this] consider "s' = s"
        | d where "catch (Transaction_from_dict (E 0) d) s
                     (\<lambda>tx. Some (snd (add_transaction X s tx))) = Some s'"
        by blast
      then show ?thesis
      proof cases
        case 1
        then show ?thesis by simp
      next
        case 2
        from catch_Some [OF 2] show ?thesis
          by auto
      qed
    next
      case nt: False
      show ?thesis
      proof (cases "t = JStr ''block''")
        case True
        with 2 nt have "catch (subscript msg ''data'') s (\<lambda>d.
           catch (Block_from_dict E d) s (\<lambda>b.
             case receive_block X rs s b of
               None \<Rightarrow> None
             | Some (Inl err) \<Rightarrow> Some s
             | Some (Inr (appended, s')) \<Rightarrow> Some s')) = Some s'"
          by simp
        from catch_Some [OF this] consider "s' = s"
          | d where "catch (Block_from_dict E d) s (\<lambda>b.
             case receive_block X rs s b of
               None \<Rightarrow> None
             | Some (Inl err) \<Rightarrow> Some s
             | Some (Inr (appended, s')) \<Rightarrow> Some s') = Some s'"
          by blast
        then show ?thesis
        proof cases
          case 1
          then show ?thesis by simp
        next
          case 2
          from catch_Some [OF 2] consider "s' = s"
            | b where "Block_from_dict E d = Inr b"
                "(case receive_block X rs s b of
                    None \<Rightarrow> None
                  | Some (Inl err) \<Rightarrow> Some s
                  | Some (Inr (appended, s')) \<Rightarrow> Some s') = Some s'"
            by blast
          then show ?thesis
          proof cases
            case 1
            then show ?thesis by simp
          next
            case 2
            from 2(2) have "s' = s \<or> (\<exists>r. receive_block X rs s b = Some (Inr (r, s')))"
              by (auto split: option.splits sum.splits)
            with 2(1) show ?thesis
              by blast
          qed
        qed
      next
        case nb: False
        show ?thesis
        proof (cases "t = JStr ''create_transaction''")
          case True
          with 2 nt nb have "catch (create_args msg) s (\<lambda>(r, a, f).
             case create_and_sign_transaction X (E 0) s r a f of
               None \<Rightarrow> Some s
             | Some tx \<Rightarrow> Some (snd (add_transaction X s tx))) = Some s'"
            by simp
          from catch_Some [OF this] consider "s' = s"
            | r a f where
                "(case create_and_sign_transaction X (E 0) s r a f of
                    None \<Rightarrow> Some s
                  | Some tx \<Rightarrow> Some (snd (add_transaction X s tx))) = Some s'"
            by auto
          then show ?thesis
          proof cases
            case 1
            then show ?thesis by simp
          next
            case 2
            then have "s' = s
              \<or> (\<exists>tx. create_and_sign_transaction X (E 0) s r a f = Some tx
                     \<and> s' = snd (add_transaction X s tx))"
              by (auto split: option.splits)
            then show ?thesis
              by blast
          qed
        next
          case False
          with 2 nt nb show ?thesis by simp
        qed
      qed
    qed
  qed
qed

lemma handle_connection_cases:
  assumes "handle_connection X E rs s msg = Some s'"
  shows "s' = s \<or> (\<exists>tx. s' = snd (add_transaction X s tx))
         \<or> (\<exists>b r. receive_block X rs s b = Some (Inr (r, s')))"
  using handle_connection_origin [OF assms] by blast

lemma connection_invariant:
  assumes add: "\<And>s tx. P s \<Longrightarrow> P (snd (add_transaction X s tx))"
    and adopt: "\<And>s c. P s \<Longrightarrow> P (adopt_chain X s c)"
    and recv: "\<And>s b c. P s \<Longrightarrow> add_block (chain s) b (JStr (hash b)) = Inr (True, c)
                 \<Longrightarrow> P (s\<lparr>chain := c, mempool := remove_included (transactions b) (mempool s)\<rparr>)"
    and "P s" and "handle_connection X E rs s msg = Some s'"
  shows "P s'"
proof -
  from handle_connection_cases [OF assms(5)]
  consider "s' = s" | tx where "s' = snd (add_transaction X s tx)"
    | b r where "receive_block X rs s b = Some (Inr (r, s'))"
    by blast
  then show ?thesis
  proof cases
    case 1
    with assms(4) show ?thesis by simp
  next
    case 2
    with add [OF assms(4)] show ?thesis by simp
  next
    case 3
    from receive_block_cases [OF 3] show ?thesis
      using recv [OF assms(4)] sync_invariant [of P X s rs s', OF adopt assms(4)] by blast
  qed
qed

subsection \<open>Mining\<close>

lemma pow_loop_Some:
  assumes "pow_loop b = Some y"
  shows "(\<exists>n. fst y = b\<lparr>nonce := n\<rparr>) \<and> snd y = generate_hash (fst y) \<and> meets_difficulty (snd y)"
  using assms
proof (induction rule: pow_loop.raw_induct [rotated, consumes 1])
  case (1 pow_loop b y)
  show ?case
  proof (cases "meets_difficulty (generate_hash b)")
    case True
    with 1(2) have "y = (b, generate_hash b)"
      by simp
    moreover have "b = b\<lparr>nonce := nonce b\<rparr>"
      by simp
    ultimately show ?thesis
      using True by (metis fst_conv snd_conv)
  next
    case False
    with 1(2) have "pow_loop (b\<lparr>nonce := nonce b + 1\<rparr>) = Some y"
      by simp
    from 1(1) [OF this] show ?thesis
      by auto
  qed
qed

lemma mine_Some:
  assumes "mine X E s = Some (Inr s')"
  shows "s' = s
    \<or> (\<exists>nb. chain s \<noteq> []
          \<and> s' = s\<lparr>chain := chain s @ [nb],
                    mempool := remove_mined (pick_transactions s (BLOCK_SIZE_LIMIT - 1)) (mempool s)\<rparr>
          \<and> transactions nb =
              Tx (create_reward_transaction (E 0) (public_key_str s) MINING_REWARD
                    (sum_list (map fee (pick_transactions s (BLOCK_SIZE_LIMIT - 1)))))
              # map Tx (pick_transactions s (BLOCK_SIZE_LIMIT - 1))
          \<and> prev_hash nb = hash (last (chain s))
          \<and> meets_difficulty (hash nb) \<and> generate_hash nb = hash nb
          \<and> block_timestamp nb = JFloat (now (E 1)))"
proof (cases "is_miner s \<and> mempool s \<noteq> [] \<and> pick_transactions s (BLOCK_SIZE_LIMIT - 1) \<noteq> []")
  case False
  with assms show ?thesis
    by (auto simp add: mine_def Let_def split: if_splits)
next
  case True
  define picked where "picked = pick_transactions s (BLOCK_SIZE_LIMIT - 1)"
  define reward where "reward = create_reward_transaction (E 0) (public_key_str s) MINING_REWARD
    (sum_list (map fee picked))"
  from assms True obtain lb where lb: "last_block (chain s) = Inr lb"
    by (auto simp add: mine_def Let_def split: sum.splits)
  then have ne: "chain s \<noteq> []" and lb_eq: "lb = last (chain s)"
    by (auto simp add: last_block_def split: if_splits)
  define b0 where "b0 = Block_init (E 1) (index lb + 1) (Tx reward # map Tx picked) (hash lb) JNull 0 None"
  from assms True lb obtain nb h where pw: "proof_of_work b0 = Some (nb, h)"
    by (auto simp add: mine_def Let_def picked_def reward_def b0_def split: option.splits)
  from pow_loop_Some [OF pw [unfolded proof_of_work_def]]
  obtain n where nb: "nb = b0\<lparr>nonce := n\<rparr>" and h: "h = generate_hash nb" "meets_difficulty h"
    by auto
  have tr: "transactions nb = Tx reward # map Tx picked" and ph: "prev_hash nb = hash lb"
    and ts: "block_timestamp nb = JFloat (now (E 1))"
    by (simp_all add: nb b0_def Block_init_def Let_def)
  have ab: "add_block (chain s) (nb\<lparr>hash := h\<rparr>) (JStr h) =
              Inr (True, chain s @ [nb\<lparr>hash := h\<rparr>])"
    using ne ph h by (simp add: add_block_def is_valid_block_def lb_eq)
  from assms True lb pw ab
  have "s' = s\<lparr>chain := chain s @ [nb\<lparr>hash := h\<rparr>], mempool := remove_mined picked (mempool s)\<rparr>"
    by (simp add: mine_def Let_def picked_def reward_def b0_def)
  with ne tr ph h ts show ?thesis
    unfolding picked_def reward_def lb_eq
    by (intro disjI2 exI [of _ "nb\<lparr>hash := h\<rparr>"]) simp
qed

section \<open>Lists of transactions\<close>

lemma tx_in_iff: "tx_in tx mp \<longleftrightarrow> tx_id tx \<in> set (map tx_id mp)"
  by (induction mp) (auto simp add: tx_in_def tx_eq_def)

lemma list_remove_subset: "set (list_remove t mp) \<subseteq> set mp"
  by (induction mp) auto




lemma remove_included_subset: "set (remove_included its mp) \<subseteq> set mp"
proof (induction its mp rule: remove_included.induct)
  case (2 tx its mp)
  then show ?case
    using list_remove_subset [of tx mp] by (auto split: if_splits)
qed simp_all



lemma remove_mined_subset: "set (remove_mined txs mp) \<subseteq> set mp"
proof (induction txs arbitrary: mp)
  case Nil
  then show ?case by simp
next
  case (Cons tx txs)
  from Cons [of "if tx_in tx mp then list_remove tx mp else mp"] list_remove_subset [of tx mp]
  show ?case
    by (auto split: if_splits)
qed



lemma item_has_id_iff: "list_ex (item_has_id i) its \<longleftrightarrow> i \<in> set (item_ids its)"
  by (induction its rule: item_ids.induct) (auto simp add: item_has_id_def)

lemma in_chain_iff: "in_chain c tx \<longleftrightarrow> tx_id tx \<in> set (block_tx_ids c)"
  by (induction c) (auto simp add: in_chain_def block_tx_ids_def item_has_id_iff)




subsection \<open>The dictionary of the old chain's transactions\<close>





subsection \<open>Reinjection\<close>

lemma reinject_fields:
  "chain (reinject X m ids s) = chain s"
  "public_key_str (reinject X m ids s) = public_key_str s"
  "is_miner (reinject X m ids s) = is_miner s"
  by (induction X m ids s rule: reinject.induct) (simp_all split: option.splits)

lemma reinject_mempool:
  "tx \<in> set (mempool (reinject X m ids s))
   \<Longrightarrow> tx \<in> set (mempool s)
       \<or> (\<exists>i \<in> set ids. map_of m i = Some tx \<and> (\<exists>s0. verify_transaction X s0 tx))"
proof (induction X m ids s rule: reinject.induct)
  case (1 X m s)
  then show ?case by simp
next
  case (2 X m i ids s)
  show ?case
  proof (cases "map_of m i")
    case None
    with 2 show ?thesis by auto
  next
    case (Some t)
    show ?thesis
    proof (cases "verify_transaction X s t \<and> \<not> tx_in t (mempool s)")
      case True
      with 2(3) [OF Some] 2(5) Some
      have "tx \<in> set (mempool (s\<lparr>mempool := mempool s @ [t]\<rparr>))
        \<or> (\<exists>i \<in> set ids. map_of m i = Some tx \<and> (\<exists>s0. verify_transaction X s0 tx))"
        by simp
      with True Some show ?thesis
        by auto
    next
      case False
      with 2(2,4) [OF Some] 2(5) Some
      have "tx \<in> set (mempool s)
        \<or> (\<exists>i \<in> set ids. map_of m i = Some tx \<and> (\<exists>s0. verify_transaction X s0 tx))"
        by (auto split: if_splits)
      then show ?thesis
        by auto
    qed
  qed
qed




subsection \<open>Adopting a chain\<close>

lemma adopt_chain_kept:
  "\<not> (length (chain s) < length c \<and> is_valid_chain c) \<Longrightarrow> adopt_chain X s c = s"
  by (auto simp add: adopt_chain_def replace_chain_def Let_def)

lemma adopt_chain_replaced:
  assumes "length (chain s) < length c" and "is_valid_chain c"
  shows "adopt_chain X s c =
     reinject X (tx_map (tl (chain s)))
       (sort_key (set_rank X)
          (filter (\<lambda>i. i \<notin> set (block_tx_ids (tl c))) (map fst (tx_map (tl (chain s))))))
       (s\<lparr>chain := c,
          mempool := filter (\<lambda>tx. tx_id tx \<notin> set (block_tx_ids (tl c))) (mempool s)\<rparr>)"
  using assms by (simp add: adopt_chain_def replace_chain_def Let_def)

lemma adopt_chain_chain:
  "chain (adopt_chain X s c) = (if length (chain s) < length c \<and> is_valid_chain c then c else chain s)"
  by (simp add: adopt_chain_kept adopt_chain_replaced reinject_fields)

lemma valid_links_append:
  "valid_links g (bs @ [b]) \<longleftrightarrow>
     valid_links g bs \<and> prev_hash b = hash (last (g # bs)) \<and> meets_difficulty (hash b)
     \<and> generate_hash b = hash b"
  by (induction bs arbitrary: g) auto

lemma is_valid_chain_append:
  assumes "is_valid_chain c" and "prev_hash b = hash (last c)" and "meets_difficulty (hash b)"
    and "generate_hash b = hash b"
  shows "is_valid_chain (c @ [b])"
proof (cases c)
  case Nil
  with assms(1) show ?thesis
    by (simp add: is_valid_chain_def)
next
  case (Cons g bs)
  with assms show ?thesis
    by (simp add: is_valid_chain_def valid_links_append split: if_splits)
qed

lemma verify_transaction_sound:
  "verify_transaction X s tx \<Longrightarrow> sender_pubkey tx = ''COINBASE'' \<or> signature_verifies X tx"
  by (auto simp add: verify_transaction_def signature_verifies_def split: if_splits json.splits)

lemma run_invariant:
  assumes step: "\<And>s ev s'. P s \<Longrightarrow> step X s ev = Some s' \<Longrightarrow> P s'"
    and "P s" and "run X s evs = Some s'"
  shows "P s'"
  using assms(2,3)
proof (induction evs arbitrary: s)
  case Nil
  then show ?case by simp
next
  case (Cons ev evs)
  from Cons.prems(2) obtain s1 where s1: "step X s ev = Some s1" and r: "run X s1 evs = Some s'"
    by (auto split: option.splits)
  from step [OF Cons.prems(1) s1] r show ?case
    by (rule Cons.IH)
qed

lemma Node_init_Some:
  assumes "Node_init pk miner stored = Some s0"
  shows "mempool s0 = [] \<and> is_valid_chain (chain s0)"
proof -
  let ?s = "\<lparr>chain = Blockchain_init, mempool = [], public_key_str = pk, is_miner = miner\<rparr>"
  have base: "mempool ?s = [] \<and> is_valid_chain (chain ?s)"
    by (simp add: valid_chain_genesis)
  show ?thesis
  proof (cases stored)
    case None
    with assms base show ?thesis
      by (simp add: Node_init_def)
  next
    case (Some f)
    obtain E d where f: "f = (E, d)"
      by (cases f)
    with Some assms have l: "load_blockchain E ?s d = Some s0"
      by (simp add: Node_init_def)
    show ?thesis
    proof (cases d)
      case (JList js)
      with l have "catch (blocks_from_dict E 0 js) ?s (\<lambda>new_chain.
          if is_valid_chain new_chain then Some (?s\<lparr>chain := new_chain\<rparr>) else Some ?s) = Some s0"
        by (simp add: load_blockchain_def)
      from catch_Some [OF this] base show ?thesis
        by (auto split: if_splits)
    qed (use l base in \<open>auto simp add: load_blockchain_def\<close>)
  qed
qed

section \<open>Concrete runs\<close>

lemma wf_blocks:
  "wf_block create_genesis_block" "wf_block block_b1" "wf_block block_f0" "wf_block block_f1"
  "wf_block block_c1" "wf_block block_c2"
  by (simp_all add: wf_block_def wf_item_def wf_tx_def block_facts reward_r1_def unsigned_u1_def
      coinbase_t0_def genesis_dict_def has_key_def)

lemma Node_init_node0: "Node_init ''miner'' False None = Some node0"
  by (simp add: Node_init_def node0_def)

lemma node0_fields:
  "chain node0 = [create_genesis_block]" "mempool node0 = []"
  by (simp_all add: node0_def Blockchain_init_def)

lemma sync_one:
  "handle_chain_response X E s d = Some s' \<Longrightarrow> request_chain_from_peers X [(E, d)] s = Some s'"
  by simp

lemma handle_chain_response_adopt:
  "blocks_from_dict E 0 js = Inr c
   \<Longrightarrow> handle_chain_response X E s (JList js) = Some (adopt_chain X s c)"
  by (simp add: handle_chain_response_def catch_def)

lemma blocks_from_dict_f:
  "blocks_from_dict chain_readings0 0 [Block_to_dict block_f0, Block_to_dict block_f1] =
     Inr [block_f0, block_f1]"
  by (simp add: block_roundtrip wf_blocks)



lemma connection_block_b1:
  "handle_connection X readings0 [] node0 msg_block_b1 =
     Some (node0\<lparr>chain := [create_genesis_block, block_b1]\<rparr>)"
proof -
  have fd: "Block_from_dict readings0 (Block_to_dict block_b1) = Inr block_b1"
    by (simp add: block_roundtrip wf_blocks)
  have eq: "block_b1\<lparr>hash := hash_b1\<rparr> = block_b1"
    by (simp add: block_b1_def)
  have "add_block (chain node0) block_b1 (JStr (hash block_b1)) =
      Inr (True, [create_genesis_block, block_b1])"
    by (simp add: add_block_def is_valid_block_def node0_fields block_facts eq)
  then have "receive_block X [] node0 block_b1 =
      Some (Inr (True, node0\<lparr>chain := [create_genesis_block, block_b1]\<rparr>))"
    by (simp add: receive_block_def node0_def block_facts reward_r1_def unsigned_u1_def tx_in_def)
  with fd show ?thesis
    by (simp add: handle_connection_def catch_def subscript_def msg_block_b1_def)
qed

text \<open>One call of \<open>mine\<close>: the search tries the nonces 0 and 1 and returns.\<close>

lemma generate_hash_fields:
  assumes "index a = index b" "block_timestamp a = block_timestamp b"
    "transactions a = transactions b" "prev_hash a = prev_hash b" "nonce a = nonce b"
  shows "generate_hash a = generate_hash b"
  using assms by (simp add: generate_hash_def)

lemma connection_tx_signed:
  "handle_connection ext_accept readings0 [] miner0 msg_tx_signed =
     Some (miner0\<lparr>mempool := [tx_signed]\<rparr>)"
proof -
  have "wf_tx tx_signed"
    by (simp add: wf_tx_def tx_signed_def)
  then have fd: "Transaction_from_dict (readings0 0) (Transaction_to_dict tx_signed) = Inr tx_signed"
    by (rule from_dict_to_dict_wf)
  have "add_transaction ext_accept miner0 tx_signed = (True, miner0\<lparr>mempool := [tx_signed]\<rparr>)"
    by (simp add: add_transaction_def in_chain_iff block_tx_ids_def miner0_def Blockchain_init_def
        block_facts tx_in_iff verify_transaction_def tx_signed_def ext_accept_def
        get_balance_with_mempool_def get_balance_def)
  with fd show ?thesis
    by (simp add: handle_connection_def catch_def subscript_def msg_tx_signed_def)
qed

lemma mine_block_mined:
  "mine X readings_mine (miner0\<lparr>mempool := [tx_signed]\<rparr>) =
     Some (Inr (miner0\<lparr>chain := [create_genesis_block, block_mined], mempool := []\<rparr>))"
proof -
  define b0 where "b0 = Block_init (readings_mine 1) (index create_genesis_block + 1)
    [Tx reward_mined, Tx tx_signed] (hash create_genesis_block) JNull 0 None"
  have f: "index b0 = 1" "block_timestamp b0 = JFloat ''1700000000.75''"
    "transactions b0 = [Tx reward_mined, Tx tx_signed]" "prev_hash b0 = genesis_hash"
    by (simp_all add: b0_def Block_init_def Let_def readings_mine_def block_facts)
  have g0: "generate_hash (b0\<lparr>nonce := 0\<rparr>) =
      ''73557e7db3be2d9968c5cd8b90bcb6f2757f82002054166f8ff345bcb77c5f34''"
    using generate_hash_fields [of "b0\<lparr>nonce := 0\<rparr>" "block_mined\<lparr>nonce := 0\<rparr>"]
    by (simp add: f block_facts block_mined_nonce0_hash)
  have g1: "generate_hash (b0\<lparr>nonce := 1\<rparr>) = hash_mined"
    using generate_hash_fields [of "b0\<lparr>nonce := 1\<rparr>" block_mined]
    by (simp add: f block_facts)
  have n0: "\<not> meets_difficulty ''73557e7db3be2d9968c5cd8b90bcb6f2757f82002054166f8ff345bcb77c5f34''"
    by (simp add: meets_difficulty_def startswith_def difficulty_def eval_nat_numeral)
  have "pow_loop (b0\<lparr>nonce := 1\<rparr>) = Some (b0\<lparr>nonce := 1\<rparr>, hash_mined)"
    by (subst pow_loop.simps) (simp add: g1 block_facts)
  then have "pow_loop (b0\<lparr>nonce := 0\<rparr>) = Some (b0\<lparr>nonce := 1\<rparr>, hash_mined)"
    by (subst pow_loop.simps) (simp add: g0 n0)
  then have pw: "proof_of_work b0 = Some (b0\<lparr>nonce := 1\<rparr>, hash_mined)"
    by (simp add: proof_of_work_def)
  have nb: "b0\<lparr>nonce := 1, hash := hash_mined\<rparr> = block_mined"
    by (simp add: b0_def Block_init_def Let_def readings_mine_def block_facts block_mined_def)
  define s1 where "s1 = miner0\<lparr>mempool := [tx_signed]\<rparr>"
  have s1: "chain s1 = [create_genesis_block]" "mempool s1 = [tx_signed]" "is_miner s1"
    "public_key_str s1 = ''miner''"
    by (simp_all add: s1_def miner0_def Blockchain_init_def)
  have pk: "pick_transactions s1 (BLOCK_SIZE_LIMIT - 1) = [tx_signed]"
    by (simp add: pick_transactions_def BLOCK_SIZE_LIMIT_def s1)
  have rw: "create_reward_transaction (readings_mine 0) (public_key_str s1) MINING_REWARD
      (sum_list (map fee [tx_signed])) = reward_mined"
    by (simp add: create_reward_transaction_def Transaction_init_def readings_mine_def
        MINING_REWARD_def reward_mined_def tx_signed_def s1)
  have eq: "block_mined\<lparr>hash := hash_mined\<rparr> = block_mined"
    by (simp add: block_mined_def)
  have ab: "add_block (chain s1) (b0\<lparr>nonce := 1, hash := hash_mined\<rparr>) (JStr hash_mined) =
      Inr (True, [create_genesis_block, block_mined])"
    by (simp add: nb add_block_def is_valid_block_def block_facts eq s1)
  have lb: "last_block (chain s1) = Inr create_genesis_block"
    by (simp add: last_block_def s1)
  have "mine X readings_mine s1 =
      Some (Inr (miner0\<lparr>chain := [create_genesis_block, block_mined], mempool := []\<rparr>))"
    apply (simp only: mine_def Let_def pk rw lb sum.case)
    using pw [unfolded b0_def] ab [unfolded b0_def]
    apply (simp add: s1 tx_in_def tx_eq_def)
    apply (simp add: s1_def)
    done
  then show ?thesis
    by (simp only: s1_def)
qed

section \<open>Invariants of the reachable states\<close>

subsection \<open>The chain stays valid\<close>

lemma add_transaction_chain: "chain (snd (add_transaction X s tx)) = chain s"
  using add_transaction_cases [of X s tx] by auto

lemma valid_chain_step:
  assumes "is_valid_chain (chain s)" and "step X s ev = Some s'"
  shows "is_valid_chain (chain s')"
proof -
  let ?P = "\<lambda>s. is_valid_chain (chain s)"
  have add: "?P (snd (add_transaction X s tx))" if "?P s" for s tx
    using that by (simp add: add_transaction_chain)
  have adopt: "?P (adopt_chain X s c)" if "?P s" for s c
    using that by (simp add: adopt_chain_chain)
  have recv: "?P (s\<lparr>chain := c, mempool := remove_included (transactions b) (mempool s)\<rparr>)"
    if "?P s" and "add_block (chain s) b (JStr (hash b)) = Inr (True, c)" for s b c
    using add_block_True [OF that(2)] that(1) is_valid_chain_append [of "chain s" b]
    by simp
  show ?thesis
  proof (cases ev)
    case (Connection E rs msg)
    with assms(2) have h: "handle_connection X E rs s msg = Some s'"
      by simp
    show ?thesis
    proof (rule connection_invariant [where P = ?P])
      show "handle_connection X E rs s msg = Some s'" by (rule h)
      show "?P s" by (rule assms(1))
    qed (rule add adopt recv; assumption)+
  next
    case (Sync rs)
    with assms(2) have h: "request_chain_from_peers X rs s = Some s'"
      by simp
    show ?thesis
    proof (rule sync_invariant [where P = ?P])
      show "request_chain_from_peers X rs s = Some s'" by (rule h)
      show "?P s" by (rule assms(1))
    qed (rule adopt; assumption)
  next
    case (Mine E)
    with assms(2) consider "s' = s" | "mine X E s = Some (Inr s')"
      by (auto split: option.splits sum.splits)
    then show ?thesis
    proof cases
      case 1
      with assms(1) show ?thesis by simp
    next
      case 2
      from mine_Some [OF 2] assms(1) show ?thesis
        using is_valid_chain_append by auto
    qed
  qed
qed

lemma valid_chain_first:
  assumes "is_valid_chain c"
  shows "c \<noteq> [] \<and> prev_hash (hd c) = ''0''"
  using assms by (cases c) (auto simp add: is_valid_chain_def split: if_splits)

lemma add_block_first:
  assumes "add_block c b v = Inr (r, c')"
  shows "hd c' = hd c"
proof (cases r)
  case True
  with add_block_text [of c b v c'] assms obtain h where "v = JStr h"
    by auto
  with add_block_True [of c b h c'] assms True show ?thesis
    by (cases c) simp_all
next
  case False
  with add_block_False [of c b v c'] assms show ?thesis
    by simp
qed

lemma mine_first:
  assumes "mine X E s = Some (Inr s')"
  shows "hd (chain s') = hd (chain s)"
proof -
  from mine_Some [OF assms] consider "s' = s"
    | nb where "chain s \<noteq> []" "chain s' = chain s @ [nb]"
    by auto
  then show ?thesis
    by cases simp_all
qed

text \<open>
  C6 (as amended).  In every state a node can reach, the chain is not empty, its
  first block has \<open>prev_hash\<close> \<open>"0"\<close>, and every later block links to its predecessor,
  meets the difficulty and carries its canonical hash (\<open>is_valid_chain\<close> holds).  The
  first block is the canonical genesis block in a node started without a stored
  chain, and \<open>add_block\<close> and \<open>mine\<close> keep the first block; a chain that is adopted
  replaces the whole chain and need only be longer and pass \<open>is_valid_chain\<close>, which
  asks of the first block no more than \<open>prev_hash\<close> \<open>"0"\<close>.
\<close>

theorem reachable_chain_valid:
  assumes "Node_init pk miner stored = Some s0" and "run X s0 evs = Some s"
  shows "chain s \<noteq> [] \<and> prev_hash (hd (chain s)) = ''0'' \<and> is_valid_chain (chain s)
    \<and> (stored = None \<longrightarrow> hd (chain s0) = create_genesis_block)
    \<and> (\<forall>b v r c. add_block (chain s) b v = Inr (r, c) \<longrightarrow> hd c = hd (chain s))
    \<and> (\<forall>E s'. mine X E s = Some (Inr s') \<longrightarrow> hd (chain s') = hd (chain s))
    \<and> (\<forall>c. chain (adopt_chain X s c) =
            (if length (chain s) < length c \<and> is_valid_chain c then c else chain s))"
proof -
  from Node_init_Some [OF assms(1)] have "is_valid_chain (chain s0)"
    by simp
  then have "is_valid_chain (chain s)"
  proof (rule run_invariant [where P = "\<lambda>s. is_valid_chain (chain s)", rotated 1])
    show "run X s0 evs = Some s" by (rule assms(2))
  qed (rule valid_chain_step)
  moreover have "hd (chain s0) = create_genesis_block" if "stored = None"
    using that assms(1) by (auto simp add: Node_init_def Blockchain_init_def)
  ultimately show ?thesis
    using valid_chain_first add_block_first mine_first adopt_chain_chain by blast
qed

lemma sync_chain_f:
  "request_chain_from_peers X [(chain_readings0, chain_data_f)] node0 =
     Some (node0\<lparr>chain := [block_f0, block_f1]\<rparr>)"
proof -
  have "adopt_chain X node0 [block_f0, block_f1] =
      node0\<lparr>chain := [block_f0, block_f1], mempool := []\<rparr>"
    using adopt_chain_replaced [of node0 "[block_f0, block_f1]" X]
    by (simp add: node0_fields valid_chain_f tx_map_def)
  also have "\<dots> = node0\<lparr>chain := [block_f0, block_f1]\<rparr>"
    by (simp add: node0_def)
  finally show ?thesis
    unfolding chain_data_f_def
    by (intro sync_one) (simp add: handle_chain_response_adopt [OF blocks_from_dict_f])
qed

theorem reachable_chain_valid_witness:
  "Node_init ''miner'' False None = Some node0
   \<and> run ext_reject node0 [Sync [(chain_readings0, chain_data_f)]]
       = Some (node0\<lparr>chain := [block_f0, block_f1]\<rparr>)
   \<and> prev_hash (hd [block_f0, block_f1]) = ''0'' \<and> is_valid_chain [block_f0, block_f1]"
proof -
  have r: "run ext_reject node0 [Sync [(chain_readings0, chain_data_f)]]
      = Some (node0\<lparr>chain := [block_f0, block_f1]\<rparr>)"
    by (simp only: run.simps step.simps sync_chain_f option.case)
  from reachable_chain_valid [OF Node_init_node0 r] Node_init_node0 r show ?thesis
    by simp
qed

text \<open>
  C6 as stated fails: a freshly started node that is sent the chain of \<open>block_f0\<close>
  and \<open>block_f1\<close> adopts it (\<open>replace_chain\<close> returns true), and its first block is then
  \<open>block_f0\<close>, not the canonical genesis block.
\<close>

theorem genesis_replaced:
  "Node_init ''miner'' False None = Some node0
   \<and> replace_chain (chain node0) [block_f0, block_f1] = (True, [block_f0, block_f1])
   \<and> run ext_reject node0 [Sync [(chain_readings0, chain_data_f)]]
       = Some (node0\<lparr>chain := [block_f0, block_f1]\<rparr>)
   \<and> hd (chain (node0\<lparr>chain := [block_f0, block_f1]\<rparr>)) \<noteq> create_genesis_block"
proof -
  have "transactions block_f0 \<noteq> transactions create_genesis_block"
    by (simp add: block_facts)
  then have "block_f0 \<noteq> create_genesis_block"
    by auto
  moreover have "run ext_reject node0 [Sync [(chain_readings0, chain_data_f)]]
      = Some (node0\<lparr>chain := [block_f0, block_f1]\<rparr>)"
    by (simp only: run.simps step.simps sync_chain_f option.case)
  ultimately show ?thesis
    by (simp add: Node_init_node0 replace_chain_def node0_fields valid_chain_f)
qed

subsection \<open>The mempool holds verified transactions\<close>

lemma mempool_verified_step:
  assumes "mempool_verified X s" and "step X s ev = Some s'"
  shows "mempool_verified X s'"
proof -
  let ?Q = "\<lambda>tx. sender_pubkey tx = ''COINBASE'' \<or> signature_verifies X tx"
  let ?P = "mempool_verified X"
  have add: "?P (snd (add_transaction X s tx))" if "?P s" for s tx
    using that add_transaction_cases [of X s tx] verify_transaction_sound [of X s tx]
    by (auto simp add: mempool_verified_def)
  have adopt: "?P (adopt_chain X s c)" if "?P s" for s c
  proof (cases "length (chain s) < length c \<and> is_valid_chain c")
    case False
    with that show ?thesis
      by (simp add: adopt_chain_kept)
  next
    case True
    have "?Q tx" if "tx \<in> set (mempool (adopt_chain X s c))" for tx
      using reinject_mempool [OF that [unfolded adopt_chain_replaced [OF True [THEN conjunct1]
            True [THEN conjunct2]]]] \<open>?P s\<close> verify_transaction_sound [of X _ tx]
      by (auto simp add: mempool_verified_def list_all_iff)
    then show ?thesis
      by (simp add: mempool_verified_def list_all_iff)
  qed
  have recv: "?P (s\<lparr>chain := c, mempool := remove_included (transactions b) (mempool s)\<rparr>)"
    if "?P s" and "add_block (chain s) b (JStr (hash b)) = Inr (True, c)" for s b c
    using that(1) remove_included_subset [of "transactions b" "mempool s"]
    by (auto simp add: mempool_verified_def list_all_iff)
  show ?thesis
  proof (cases ev)
    case (Connection E rs msg)
    with assms(2) have h: "handle_connection X E rs s msg = Some s'"
      by simp
    show ?thesis
    proof (rule connection_invariant [where P = ?P])
      show "handle_connection X E rs s msg = Some s'" by (rule h)
      show "?P s" by (rule assms(1))
    qed (rule add adopt recv; assumption)+
  next
    case (Sync rs)
    with assms(2) have h: "request_chain_from_peers X rs s = Some s'"
      by simp
    show ?thesis
    proof (rule sync_invariant [where P = ?P])
      show "request_chain_from_peers X rs s = Some s'" by (rule h)
      show "?P s" by (rule assms(1))
    qed (rule adopt; assumption)
  next
    case (Mine E)
    with assms(2) consider "s' = s" | "mine X E s = Some (Inr s')"
      by (auto split: option.splits sum.splits)
    then show ?thesis
    proof cases
      case 1
      with assms(1) show ?thesis by simp
    next
      case 2
      from mine_Some [OF 2] assms(1)
        remove_mined_subset [of "pick_transactions s (BLOCK_SIZE_LIMIT - 1)" "mempool s"]
      show ?thesis
        by (auto simp add: mempool_verified_def list_all_iff)
    qed
  qed
qed

lemma mined_block_verified:
  assumes "mempool_verified X s" and "mine X E s = Some (Inr s')" and "chain s' \<noteq> chain s"
  shows "list_all (\<lambda>it. case it of
             Tx tx \<Rightarrow> sender_pubkey tx = ''COINBASE'' \<or> signature_verifies X tx
           | Raw j \<Rightarrow> True) (transactions (last (chain s')))"
proof -
  let ?picked = "pick_transactions s (BLOCK_SIZE_LIMIT - 1)"
  from mine_Some [OF assms(2)] assms(3) obtain nb where
    c: "chain s' = chain s @ [nb]" and
    t: "transactions nb =
          Tx (create_reward_transaction (E 0) (public_key_str s) MINING_REWARD
                (sum_list (map fee ?picked))) # map Tx ?picked"
    by auto
  have "set ?picked \<subseteq> set (mempool s)"
    using set_take_subset [of "BLOCK_SIZE_LIMIT - 1" "sort_key (\<lambda>tx. - fee tx) (mempool s)"]
    by (simp add: pick_transactions_def)
  with assms(1) have "\<forall>tx \<in> set ?picked. sender_pubkey tx = ''COINBASE'' \<or> signature_verifies X tx"
    by (auto simp add: mempool_verified_def list_all_iff)
  moreover have "sender_pubkey (create_reward_transaction e p a f) = ''COINBASE''" for e p a f
    by (simp add: create_reward_transaction_def Transaction_init_def)
  ultimately show ?thesis
    by (auto simp add: c t list_all_iff)
qed

text \<open>
  C3 (as amended).  In every state a node can reach, every transaction in the
  node's mempool whose sender is not \<open>COINBASE\<close> has a signature that verifies against
  its signing payload and sender key, and so has every such transaction in a block
  the node mines itself.  Blocks and chains received from peers are accepted on link,
  difficulty and hash alone.
\<close>

theorem reachable_mempool_verified:
  assumes "Node_init pk miner stored = Some s0" and "run X s0 evs = Some s"
  shows "mempool_verified X s
    \<and> (\<forall>E s'. mine X E s = Some (Inr s') \<and> chain s' \<noteq> chain s \<longrightarrow>
         list_all (\<lambda>it. case it of
             Tx tx \<Rightarrow> sender_pubkey tx = ''COINBASE'' \<or> signature_verifies X tx
           | Raw j \<Rightarrow> True) (transactions (last (chain s'))))"
proof -
  from Node_init_Some [OF assms(1)] have "mempool_verified X s0"
    by (simp add: mempool_verified_def)
  then have "mempool_verified X s"
  proof (rule run_invariant [where P = "mempool_verified X", rotated 1])
    show "run X s0 evs = Some s" by (rule assms(2))
  qed (rule mempool_verified_step)
  with mined_block_verified show ?thesis
    by blast
qed

lemma Node_init_miner0: "Node_init ''miner'' True None = Some miner0"
  by (simp add: Node_init_def miner0_def)

theorem reachable_mempool_verified_witness:
  "Node_init ''miner'' True None = Some miner0
   \<and> run ext_accept miner0 [Connection readings0 [] msg_tx_signed]
       = Some (miner0\<lparr>mempool := [tx_signed]\<rparr>)
   \<and> mempool_verified ext_accept (miner0\<lparr>mempool := [tx_signed]\<rparr>)
   \<and> mine ext_accept readings_mine (miner0\<lparr>mempool := [tx_signed]\<rparr>)
       = Some (Inr (miner0\<lparr>chain := [create_genesis_block, block_mined], mempool := []\<rparr>))
   \<and> signature_verifies ext_accept tx_signed"
proof -
  let ?s = "miner0\<lparr>mempool := [tx_signed]\<rparr>"
  let ?s' = "miner0\<lparr>chain := [create_genesis_block, block_mined], mempool := []\<rparr>"
  have r: "run ext_accept miner0 [Connection readings0 [] msg_tx_signed] = Some ?s"
    by (simp only: run.simps step.simps connection_tx_signed option.case)
  have m: "mine ext_accept readings_mine ?s = Some (Inr ?s')"
    by (rule mine_block_mined)
  have n: "chain ?s' \<noteq> chain ?s"
    by (simp add: miner0_def Blockchain_init_def)
  from reachable_mempool_verified [OF Node_init_miner0 r]
  have v: "mempool_verified ext_accept ?s" and
    b: "list_all (\<lambda>it. case it of
             Tx tx \<Rightarrow> sender_pubkey tx = ''COINBASE'' \<or> signature_verifies ext_accept tx
           | Raw j \<Rightarrow> True) (transactions (last (chain ?s')))"
    using m n by blast+
  from b have "signature_verifies ext_accept tx_signed"
    by (simp add: block_facts tx_signed_def)
  with v r m show ?thesis
    by (simp add: Node_init_miner0)
qed

text \<open>
  C3 as stated fails: a freshly started node that receives \<open>block_b1\<close> over the wire
  appends it, and the chain then holds \<open>unsigned_u1\<close>, whose sender is not \<open>COINBASE\<close>
  and whose signature is \<open>None\<close>; it verifies under no verifier, not even one that
  accepts every signature.
\<close>

theorem unsigned_transaction_in_chain:
  "Node_init ''miner'' False None = Some node0
   \<and> run ext_accept node0 [Connection readings0 [] msg_block_b1]
       = Some (node0\<lparr>chain := [create_genesis_block, block_b1]\<rparr>)
   \<and> transactions block_b1 = [Tx reward_r1, Tx unsigned_u1]
   \<and> sender_pubkey unsigned_u1 \<noteq> ''COINBASE''
   \<and> \<not> signature_verifies ext_accept unsigned_u1"
proof -
  have "run ext_accept node0 [Connection readings0 [] msg_block_b1]
       = Some (node0\<lparr>chain := [create_genesis_block, block_b1]\<rparr>)"
    by (simp only: run.simps step.simps connection_block_b1 option.case)
  then show ?thesis
    by (simp add: Node_init_node0 block_facts unsigned_u1_def signature_verifies_def)
qed

section \<open>Coinbase transactions outside blocks\<close>









section \<open>Mempool and chain\<close>





lemma add_transaction_parts:
  "add_transaction X s tx =
     (if add_transaction_checks X s tx then add_transaction_locked s tx else (False, s))"
  by (simp add: add_transaction_def add_transaction_checks_def add_transaction_locked_def)














text \<open>
  What the lock of \<open>add_transaction\<close> leaves open.  On a fresh node the checks of
  \<open>add_transaction\<close> pass for \<open>reward_r1\<close>; if \<open>receive_block\<close> then appends \<open>block_b1\<close>,
  which holds \<open>reward_r1\<close>, before the locked part runs, the transaction ends in the
  mempool and in the second block of the chain.
\<close>

lemma overlapping_calls:
  "add_transaction_checks ext_reject node0 reward_r1
   \<and> receive_block ext_reject [] node0 block_b1 =
       Some (Inr (True, node0\<lparr>chain := [create_genesis_block, block_b1]\<rparr>))
   \<and> add_transaction_locked (node0\<lparr>chain := [create_genesis_block, block_b1]\<rparr>) reward_r1 =
       (True, node0\<lparr>chain := [create_genesis_block, block_b1], mempool := [reward_r1]\<rparr>)
   \<and> \<not> mempool_disjoint_later
         (node0\<lparr>chain := [create_genesis_block, block_b1], mempool := [reward_r1]\<rparr>)"
proof -
  have eq: "block_b1\<lparr>hash := hash_b1\<rparr> = block_b1"
    by (simp add: block_b1_def)
  have "add_block (chain node0) block_b1 (JStr (hash block_b1)) =
      Inr (True, [create_genesis_block, block_b1])"
    by (simp add: add_block_def is_valid_block_def node0_fields block_facts eq)
  then have "receive_block ext_reject [] node0 block_b1 =
      Some (Inr (True, node0\<lparr>chain := [create_genesis_block, block_b1]\<rparr>))"
    by (simp add: receive_block_def node0_def block_facts reward_r1_def unsigned_u1_def tx_in_def)
  moreover have "add_transaction_checks ext_reject node0 reward_r1"
    by (simp add: add_transaction_checks_def in_chain_iff block_tx_ids_def node0_fields
        block_facts verify_transaction_def reward_r1_def)
  moreover have "add_transaction_locked (node0\<lparr>chain := [create_genesis_block, block_b1]\<rparr>)
      reward_r1 =
      (True, node0\<lparr>chain := [create_genesis_block, block_b1], mempool := [reward_r1]\<rparr>)"
    by (simp add: add_transaction_locked_def node0_def tx_in_def)
  moreover have "\<not> mempool_disjoint_later
      (node0\<lparr>chain := [create_genesis_block, block_b1], mempool := [reward_r1]\<rparr>)"
    by (simp add: mempool_disjoint_later_def block_tx_ids_def block_facts reward_r1_def
        unsigned_u1_def)
  ultimately show ?thesis
    by blast
qed





section \<open>The objects a node holds, and their reconstruction\<close>

lemma from_dict_wf:
  assumes "Transaction_from_dict e d = Inr tx" and "sane_env e"
  shows "wf_tx tx"
proof (cases d)
  case (JObj kvs)
  with assms(1) from_dict_Inr [of e kvs tx] obtain s r a i where
    "typed_transaction e s r a (dict_get kvs ''fee'' (JInt 0)) i
       (dict_get kvs ''signature'' JNull) (dict_get kvs ''timestamp'' JNull) = Inr tx"
    by blast
  from typed_transaction_Inr [OF this] obtain s' r' a' f' i' where
    "tx = Transaction_init e s' r' a' f' i' (dict_get kvs ''signature'' JNull)
           (dict_get kvs ''timestamp'' JNull)"
    by blast
  with assms(2) show ?thesis
    by (cases i') (simp_all add: wf_tx_def Transaction_init_def sane_env_def)
qed (use assms(1) in \<open>simp_all add: Transaction_from_dict_def\<close>)

lemma create_and_sign_wf:
  assumes "create_and_sign_transaction X e s r a f = Some tx" and "sane_env e"
  shows "wf_tx tx"
  using assms
  by (auto simp add: create_and_sign_transaction_def sign_transaction_def Transaction_init_def
      wf_tx_def sane_env_def split: if_splits)

lemma reward_wf: "sane_env e \<Longrightarrow> wf_tx (create_reward_transaction e pk a f)"
  by (simp add: create_reward_transaction_def Transaction_init_def wf_tx_def sane_env_def)

lemma item_from_dict_wf:
  assumes "item_from_dict e j = Inr it" and "sane_env e"
  shows "wf_item it"
proof (cases "has_key j ''tx_id''")
  case True
  with assms(1) obtain tx where "Transaction_from_dict e j = Inr tx" and "it = Tx tx"
    by (auto simp add: item_from_dict_def split: sum.splits)
  with from_dict_wf [OF _ assms(2)] show ?thesis
    by (simp add: wf_item_def)
next
  case False
  with assms(1) show ?thesis
    by (auto simp add: item_from_dict_def wf_item_def)
qed

lemma items_from_dict_wf:
  assumes "sane_readings E"
  shows "items_from_dict E i js = Inr its \<Longrightarrow> list_all wf_item its"
proof (induction js arbitrary: i its)
  case Nil
  then show ?case by simp
next
  case (Cons j js)
  from Cons.prems obtain it its' where
    it: "item_from_dict (E i) j = Inr it" and
    its': "items_from_dict E (Suc i) js = Inr its'" and
    eq: "its = it # its'"
    by (auto split: sum.splits)
  from item_from_dict_wf [OF it] assms have "wf_item it"
    by (simp add: sane_readings_def)
  with Cons.IH [OF its'] eq show ?case
    by simp
qed

lemma block_from_dict_wf:
  assumes "sane_readings E" and "Block_from_dict E d = Inr b"
  shows "wf_block b"
proof -
  from assms(2) obtain kvs js its idx prev where
    its: "items_from_dict E 1 js = Inr its" and
    tb: "typed_block (E 0) idx its prev (dict_get kvs ''timestamp'' JNull)
           (dict_get kvs ''nonce'' (JInt 0)) (dict_get kvs ''hash'' JNull) = Inr b"
    by (auto simp add: Block_from_dict_def split: json.splits option.splits sum.splits)
  from tb obtain idx' prev' n' h' where
    "b = Block_init (E 0) idx' its prev' (dict_get kvs ''timestamp'' JNull) n' h'"
    by (auto simp add: typed_block_def split: option.splits)
  then have "transactions b = its" and "block_timestamp b \<noteq> JNull"
    by (simp_all add: Block_init_def Let_def)
  with items_from_dict_wf [OF assms(1) its] show ?thesis
    by (simp add: wf_block_def)
qed

lemma blocks_from_dict_wf:
  assumes "\<forall>j. sane_readings (E j)"
  shows "blocks_from_dict E i js = Inr c \<Longrightarrow> list_all wf_block c"
proof (induction js arbitrary: i c)
  case Nil
  then show ?case by simp
next
  case (Cons j js)
  from Cons.prems obtain b bs where
    b: "Block_from_dict (E i) j = Inr b" and
    bs: "blocks_from_dict E (Suc i) js = Inr bs" and
    eq: "c = b # bs"
    by (auto split: sum.splits)
  from block_from_dict_wf [OF _ b] assms have "wf_block b"
    by simp
  with Cons.IH [OF bs] eq show ?case
    by simp
qed

lemma wf_block_hash [simp]: "wf_block (b\<lparr>hash := h\<rparr>) = wf_block b"
  by (simp add: wf_block_def)

lemma genesis_wf: "wf_block create_genesis_block"
  by (simp add: wf_block_def wf_item_def block_facts genesis_dict_def has_key_def)

subsection \<open>The transactions of the old chain\<close>

lemma dict_set_values:
  "\<forall>kv \<in> set m. P (snd kv) \<Longrightarrow> P v \<Longrightarrow> \<forall>kv \<in> set (dict_set k v m). P (snd kv)"
proof (induction m)
  case Nil
  then show ?case by simp
next
  case (Cons p m)
  obtain k' v' where p: "p = (k', v')"
    by (cases p)
  from Cons.prems(1) have m: "\<forall>kv \<in> set m. P (snd kv)" and v': "P (snd p)"
    by simp_all
  from Cons.IH [OF m Cons.prems(2)] m v' Cons.prems(2) p show ?case
    by simp
qed

lemma map_items_values:
  "\<forall>kv \<in> set m. P (snd kv) \<Longrightarrow> \<forall>tx. Tx tx \<in> set its \<longrightarrow> P tx
   \<Longrightarrow> \<forall>kv \<in> set (map_items its m). P (snd kv)"
proof (induction its m rule: map_items.induct)
  case (2 tx its m)
  from 2(3) have "P tx" and rest: "\<forall>t. Tx t \<in> set its \<longrightarrow> P t"
    by simp_all
  from 2(1) [OF dict_set_values [OF 2(2) \<open>P tx\<close>] rest] show ?case
    by simp
qed simp_all

lemma fold_map_items_values:
  "\<forall>kv \<in> set m. P (snd kv) \<Longrightarrow> \<forall>b \<in> set bs. \<forall>tx. Tx tx \<in> set (transactions b) \<longrightarrow> P tx
   \<Longrightarrow> \<forall>kv \<in> set (fold (\<lambda>b m. map_items (transactions b) m) bs m). P (snd kv)"
proof (induction bs arbitrary: m)
  case Nil
  then show ?case by simp
next
  case (Cons b bs)
  from Cons.prems(2) have b: "\<forall>tx. Tx tx \<in> set (transactions b) \<longrightarrow> P tx"
    and bs: "\<forall>b \<in> set bs. \<forall>tx. Tx tx \<in> set (transactions b) \<longrightarrow> P tx"
    by simp_all
  from Cons.IH [OF map_items_values [OF Cons.prems(1) b] bs] show ?case
    by simp
qed

lemma wf_block_Tx: "wf_block b \<Longrightarrow> Tx tx \<in> set (transactions b) \<Longrightarrow> wf_tx tx"
  by (auto simp add: wf_block_def wf_item_def list_all_iff)

lemma tx_map_wf:
  assumes "list_all wf_block bs" and "map_of (tx_map bs) i = Some tx"
  shows "wf_tx tx"
proof -
  from assms(1) have "\<forall>b \<in> set bs. \<forall>tx. Tx tx \<in> set (transactions b) \<longrightarrow> wf_tx tx"
    using wf_block_Tx by (auto simp add: list_all_iff)
  then have "\<forall>kv \<in> set (tx_map bs). wf_tx (snd kv)"
    unfolding tx_map_def by (intro fold_map_items_values) simp_all
  moreover from assms(2) have "(i, tx) \<in> set (tx_map bs)"
    by (rule map_of_SomeD)
  ultimately show ?thesis
    by force
qed

subsection \<open>Every operation keeps the objects of that kind\<close>

lemma objects_wf_add:
  assumes "objects_wf s" and "wf_tx tx"
  shows "objects_wf (snd (add_transaction X s tx))"
  using assms add_transaction_cases [of X s tx] by (auto simp add: objects_wf_def)

lemma objects_wf_adopt:
  assumes "objects_wf s" and "list_all wf_block c"
  shows "objects_wf (adopt_chain X s c)"
proof (cases "length (chain s) < length c \<and> is_valid_chain c")
  case False
  with assms(1) show ?thesis
    by (simp add: adopt_chain_kept)
next
  case True
  let ?new = "block_tx_ids (tl c)"
  let ?m = "tx_map (tl (chain s))"
  let ?ids = "sort_key (set_rank X) (filter (\<lambda>i. i \<notin> set ?new) (map fst ?m))"
  let ?s1 = "s\<lparr>chain := c, mempool := filter (\<lambda>tx. tx_id tx \<notin> set ?new) (mempool s)\<rparr>"
  have a: "adopt_chain X s c = reinject X ?m ?ids ?s1"
    using True by (simp add: adopt_chain_replaced)
  from assms(1) have old: "list_all wf_block (tl (chain s))"
    by (cases "chain s") (simp_all add: objects_wf_def)
  have "wf_tx tx" if "tx \<in> set (mempool (adopt_chain X s c))" for tx
  proof -
    from reinject_mempool [OF that [unfolded a]]
    consider "tx \<in> set (mempool ?s1)" | i where "map_of ?m i = Some tx"
      by blast
    then show ?thesis
    proof cases
      case 1
      with assms(1) show ?thesis
        by (simp add: objects_wf_def list_all_iff)
    next
      case 2
      from tx_map_wf [OF old 2] show ?thesis .
    qed
  qed
  with assms(2) True show ?thesis
    by (simp add: objects_wf_def list_all_iff adopt_chain_chain)
qed

lemma objects_wf_chain_response:
  assumes "objects_wf s" and "\<forall>j. sane_readings (E j)"
    and "handle_chain_response X E s d = Some s'"
  shows "objects_wf s'"
proof -
  from handle_chain_response_origin [OF assms(3)]
  consider "s' = s" | js c where "blocks_from_dict E 0 js = Inr c" "s' = adopt_chain X s c"
    by blast
  then show ?thesis
  proof cases
    case 1
    with assms(1) show ?thesis by simp
  next
    case 2
    from blocks_from_dict_wf [OF assms(2) 2(1)] assms(1) 2(2) show ?thesis
      by (simp add: objects_wf_adopt)
  qed
qed

lemma objects_wf_sync:
  assumes "sane_responses rs"
  shows "objects_wf s \<Longrightarrow> request_chain_from_peers X rs s = Some s' \<Longrightarrow> objects_wf s'"
  using assms
proof (induction rs arbitrary: s)
  case Nil
  then show ?case by simp
next
  case (Cons r rs)
  obtain E d where r: "r = (E, d)"
    by (cases r)
  from Cons.prems(2) r obtain s1 where
    h: "handle_chain_response X E s d = Some s1" and
    rest: "request_chain_from_peers X rs s1 = Some s'"
    by (auto split: option.splits)
  from Cons.prems(3) r have E: "\<forall>j. sane_readings (E j)" and rs: "sane_responses rs"
    by (simp_all add: sane_responses_def)
  from objects_wf_chain_response [OF Cons.prems(1) E h] have "objects_wf s1" .
  from Cons.IH [OF this rest rs] show ?case .
qed

lemma objects_wf_receive:
  assumes "objects_wf s" and "wf_block b" and "sane_responses rs"
    and "receive_block X rs s b = Some (Inr (r, s'))"
  shows "objects_wf s'"
proof -
  from receive_block_cases [OF assms(4)]
  consider c where "add_block (chain s) b (JStr (hash b)) = Inr (True, c)"
      "s' = s\<lparr>chain := c, mempool := remove_included (transactions b) (mempool s)\<rparr>"
    | "request_chain_from_peers X rs s = Some s'"
    by blast
  then show ?thesis
  proof cases
    case 1
    from add_block_True [OF 1(1)] have c: "c = chain s @ [b\<lparr>hash := hash b\<rparr>]"
      by simp
    from assms(1) remove_included_subset [of "transactions b" "mempool s"]
    have "list_all wf_tx (remove_included (transactions b) (mempool s))"
      by (auto simp add: objects_wf_def list_all_iff)
    with assms(1,2) show ?thesis
      by (simp add: 1(2) c objects_wf_def)
  next
    case 2
    from objects_wf_sync [OF assms(3,1) 2] show ?thesis .
  qed
qed

lemma pick_transactions_subset: "set (pick_transactions s n) \<subseteq> set (mempool s)"
  using set_take_subset [of n "sort_key (\<lambda>tx. - fee tx) (mempool s)"]
  by (simp add: pick_transactions_def)

lemma objects_wf_mine:
  assumes "objects_wf s" and "sane_readings E" and "mine X E s = Some (Inr s')"
  shows "objects_wf s'"
proof -
  let ?picked = "pick_transactions s (BLOCK_SIZE_LIMIT - 1)"
  let ?reward = "create_reward_transaction (E 0) (public_key_str s) MINING_REWARD
                   (sum_list (map fee ?picked))"
  from mine_Some [OF assms(3)] consider "s' = s"
    | nb where "s' = s\<lparr>chain := chain s @ [nb], mempool := remove_mined ?picked (mempool s)\<rparr>"
        "transactions nb = Tx ?reward # map Tx ?picked"
        "block_timestamp nb = JFloat (now (E 1))"
    by blast
  then show ?thesis
  proof cases
    case 1
    with assms(1) show ?thesis by simp
  next
    case 2
    from assms(1) have mp: "\<forall>tx \<in> set (mempool s). wf_tx tx"
      by (simp add: objects_wf_def list_all_iff)
    with pick_transactions_subset [of s "BLOCK_SIZE_LIMIT - 1"]
    have "\<forall>tx \<in> set ?picked. wf_tx tx"
      by blast
    moreover from assms(2) have "wf_tx ?reward"
      by (simp add: reward_wf sane_readings_def)
    ultimately have "wf_block nb"
      by (simp add: wf_block_def wf_item_def 2(2,3) list_all_iff)
    moreover from mp remove_mined_subset [of ?picked "mempool s"]
    have "list_all wf_tx (remove_mined ?picked (mempool s))"
      by (auto simp add: list_all_iff)
    ultimately show ?thesis
      using assms(1) by (simp add: 2(1) objects_wf_def)
  qed
qed

lemma objects_wf_connection:
  assumes "objects_wf s" and "sane_readings E" and "sane_responses rs"
    and "handle_connection X E rs s msg = Some s'"
  shows "objects_wf s'"
proof -
  from assms(2) have e0: "sane_env (E 0)"
    by (simp add: sane_readings_def)
  from handle_connection_origin [OF assms(4)]
  consider "s' = s"
    | d tx where "Transaction_from_dict (E 0) d = Inr tx" "s' = snd (add_transaction X s tx)"
    | r a f tx where "create_and_sign_transaction X (E 0) s r a f = Some tx"
        "s' = snd (add_transaction X s tx)"
    | d b r where "Block_from_dict E d = Inr b" "receive_block X rs s b = Some (Inr (r, s'))"
    by blast
  then show ?thesis
  proof cases
    case 1
    with assms(1) show ?thesis by simp
  next
    case 2
    from from_dict_wf [OF 2(1) e0] assms(1) 2(2) show ?thesis
      by (simp add: objects_wf_add)
  next
    case 3
    from create_and_sign_wf [OF 3(1) e0] assms(1) 3(2) show ?thesis
      by (simp add: objects_wf_add)
  next
    case 4
    from block_from_dict_wf [OF assms(2) 4(1)] have "wf_block b" .
    from objects_wf_receive [OF assms(1) this assms(3) 4(2)] show ?thesis .
  qed
qed

lemma objects_wf_step:
  assumes "objects_wf s" and "sane_event ev" and "step X s ev = Some s'"
  shows "objects_wf s'"
proof (cases ev)
  case (Connection E rs msg)
  with assms(2,3) objects_wf_connection [OF assms(1), of E rs X msg s'] show ?thesis
    by (simp add: sane_event_def)
next
  case (Sync rs)
  with assms(2,3) objects_wf_sync [of rs s X s'] assms(1) show ?thesis
    by (simp add: sane_event_def)
next
  case (Mine E)
  with assms(3) consider "s' = s" | "mine X E s = Some (Inr s')"
    by (auto split: option.splits sum.splits)
  then show ?thesis
  proof cases
    case 1
    with assms(1) show ?thesis by simp
  next
    case 2
    with assms(1,2) Mine objects_wf_mine [of s E X s'] show ?thesis
      by (simp add: sane_event_def)
  qed
qed

lemma objects_wf_run:
  "objects_wf s \<Longrightarrow> list_all sane_event evs \<Longrightarrow> run X s evs = Some s' \<Longrightarrow> objects_wf s'"
proof (induction evs arbitrary: s)
  case Nil
  then show ?case by simp
next
  case (Cons ev evs)
  from Cons.prems(3) obtain s1 where s1: "step X s ev = Some s1" and r: "run X s1 evs = Some s'"
    by (auto split: option.splits)
  from Cons.prems(2) have ev: "sane_event ev" and evs: "list_all sane_event evs"
    by simp_all
  from objects_wf_step [OF Cons.prems(1) ev s1] have "objects_wf s1" .
  from Cons.IH [OF this evs r] show ?case .
qed

lemma objects_wf_init:
  assumes "sane_stored stored" and "Node_init pk miner stored = Some s0"
  shows "objects_wf s0"
proof -
  let ?s = "\<lparr>chain = Blockchain_init, mempool = [], public_key_str = pk, is_miner = miner\<rparr>"
  have base: "objects_wf ?s"
    by (simp add: objects_wf_def Blockchain_init_def genesis_wf)
  show ?thesis
  proof (cases stored)
    case None
    with assms(2) base show ?thesis
      by (simp add: Node_init_def)
  next
    case (Some f)
    obtain E d where f: "f = (E, d)"
      by (cases f)
    with Some assms(2) have l: "load_blockchain E ?s d = Some s0"
      by (simp add: Node_init_def)
    from Some f assms(1) have E: "\<forall>j. sane_readings (E j)"
      by (simp add: sane_stored_def)
    show ?thesis
    proof (cases d)
      case (JList js)
      with l have "catch (blocks_from_dict E 0 js) ?s (\<lambda>new_chain.
          if is_valid_chain new_chain then Some (?s\<lparr>chain := new_chain\<rparr>) else Some ?s) = Some s0"
        by (simp add: load_blockchain_def)
      from catch_Some [OF this] consider "s0 = ?s"
        | c where "blocks_from_dict E 0 js = Inr c" "s0 = ?s\<lparr>chain := c\<rparr>"
        by (auto split: if_splits)
      then show ?thesis
      proof cases
        case 1
        with base show ?thesis by simp
      next
        case 2
        from blocks_from_dict_wf [OF E 2(1)] 2(2) show ?thesis
          by (simp add: objects_wf_def)
      qed
    qed (use l base in \<open>auto simp add: load_blockchain_def\<close>)
  qed
qed

text \<open>
  C9.  The objects of the program are built by the constructors: a \<open>Transaction\<close> by
  \<open>Transaction.from_dict\<close>, \<open>create_and_sign_transaction\<close> or
  \<open>create_reward_transaction\<close>, a \<open>Block\<close> by \<open>Block.from_dict\<close>,
  \<open>create_genesis_block\<close> or \<open>mine\<close>.  With a clock that does not read zero and fresh
  identifiers that are not empty, every transaction so built has a non-empty
  identifier and a truthy timestamp, and every block so built holds such transactions,
  other entries that \<open>Block.from_dict\<close> leaves alone, and a timestamp that is not
  \<open>None\<close>; so has every transaction in the mempool and every block in the chain of
  every state a node can reach.  For every such block that is sealed, the canonical
  hash of \<open>Block.from_dict(b.to_dict())\<close> is \<open>b.hash\<close> (the reconstruction is \<open>b\<close>
  itself); for every such transaction that is signed, the signature verifies against
  the signing payload of \<open>Transaction.from_dict(tx.to_dict())\<close> (the reconstruction is
  \<open>tx\<close> itself).
\<close>

theorem roundtrip_preserves_hash_and_signature:
  "(wf_block b \<and> hash b = generate_hash b
      \<longrightarrow> Block_from_dict E (Block_to_dict b) = Inr b
          \<and> (\<exists>b'. Block_from_dict E (Block_to_dict b) = Inr b' \<and> generate_hash b' = hash b))
   \<and> (wf_tx tx \<and> signature tx = JStr sg
        \<and> ecdsa_verify X (sender_pubkey tx) sg (get_signing_data tx)
      \<longrightarrow> Transaction_from_dict e (Transaction_to_dict tx) = Inr tx
          \<and> (\<exists>tx'. Transaction_from_dict e (Transaction_to_dict tx) = Inr tx'
                \<and> ecdsa_verify X (sender_pubkey tx) sg (get_signing_data tx')))
   \<and> (sane_env e1 \<and> Transaction_from_dict e1 d1 = Inr tx1 \<longrightarrow> wf_tx tx1)
   \<and> (sane_env e1 \<and> create_and_sign_transaction X e1 s r a f = Some tx2 \<longrightarrow> wf_tx tx2)
   \<and> (sane_env e1 \<longrightarrow> wf_tx (create_reward_transaction e1 pk a f))
   \<and> (sane_readings E1 \<and> Block_from_dict E1 d2 = Inr b1 \<longrightarrow> wf_block b1)
   \<and> wf_block create_genesis_block
   \<and> (sane_stored stored \<and> Node_init pk miner stored = Some s0
        \<and> list_all sane_event evs \<and> run X s0 evs = Some s1
      \<longrightarrow> list_all wf_block (chain s1) \<and> list_all wf_tx (mempool s1))"
proof -
  have "wf_block b \<and> hash b = generate_hash b
      \<longrightarrow> Block_from_dict E (Block_to_dict b) = Inr b
          \<and> (\<exists>b'. Block_from_dict E (Block_to_dict b) = Inr b' \<and> generate_hash b' = hash b)"
    by (simp add: block_roundtrip)
  moreover have "wf_tx tx \<and> signature tx = JStr sg
        \<and> ecdsa_verify X (sender_pubkey tx) sg (get_signing_data tx)
      \<longrightarrow> Transaction_from_dict e (Transaction_to_dict tx) = Inr tx
          \<and> (\<exists>tx'. Transaction_from_dict e (Transaction_to_dict tx) = Inr tx'
                \<and> ecdsa_verify X (sender_pubkey tx) sg (get_signing_data tx'))"
    by (simp add: from_dict_to_dict_wf)
  moreover have "sane_env e1 \<and> Transaction_from_dict e1 d1 = Inr tx1 \<longrightarrow> wf_tx tx1"
    using from_dict_wf by blast
  moreover have "sane_env e1 \<and> create_and_sign_transaction X e1 s r a f = Some tx2 \<longrightarrow> wf_tx tx2"
    using create_and_sign_wf by blast
  moreover have "sane_env e1 \<longrightarrow> wf_tx (create_reward_transaction e1 pk a f)"
    using reward_wf by blast
  moreover have "sane_readings E1 \<and> Block_from_dict E1 d2 = Inr b1 \<longrightarrow> wf_block b1"
    using block_from_dict_wf by blast
  moreover have "wf_block create_genesis_block"
    by (rule genesis_wf)
  moreover have "sane_stored stored \<and> Node_init pk miner stored = Some s0
        \<and> list_all sane_event evs \<and> run X s0 evs = Some s1
      \<longrightarrow> list_all wf_block (chain s1) \<and> list_all wf_tx (mempool s1)"
    using objects_wf_run [OF objects_wf_init, of stored pk miner s0 evs X s1]
    by (simp add: objects_wf_def)
  ultimately show ?thesis
    by (intro conjI)
qed

lemma sane_readings0: "sane_env env0" "sane_readings readings0" "sane_responses []"
  by (simp_all add: sane_env_def sane_readings_def sane_responses_def readings0_def env0_def)

theorem roundtrip_preserves_hash_and_signature_witness:
  "sane_stored None \<and> Node_init ''miner'' False None = Some node0
   \<and> list_all sane_event [Connection readings0 [] msg_block_b1]
   \<and> run ext_accept node0 [Connection readings0 [] msg_block_b1]
       = Some (node0\<lparr>chain := [create_genesis_block, block_b1]\<rparr>)
   \<and> wf_block block_b1 \<and> hash block_b1 = generate_hash block_b1
   \<and> Block_from_dict readings0 (Block_to_dict block_b1) = Inr block_b1
   \<and> sane_env env0 \<and> Transaction_from_dict env0 (Transaction_to_dict tx_signed) = Inr tx_signed
   \<and> wf_tx tx_signed \<and> signature tx_signed = JStr ''00''
   \<and> ecdsa_verify ext_accept (sender_pubkey tx_signed) ''00'' (get_signing_data tx_signed)
   \<and> (\<exists>tx'. Transaction_from_dict env0 (Transaction_to_dict tx_signed) = Inr tx'
          \<and> ecdsa_verify ext_accept (sender_pubkey tx_signed) ''00'' (get_signing_data tx'))"
proof -
  note law = roundtrip_preserves_hash_and_signature
    [where b = block_b1 and E = readings0 and tx = tx_signed and sg = "''00''" and X = ext_accept
       and e = env0 and ?e1.0 = env0 and ?d1.0 = "Transaction_to_dict tx_signed"
       and ?tx1.0 = tx_signed and stored = None and pk = "''miner''" and miner = False
       and ?s0.0 = node0 and evs = "[Connection readings0 [] msg_block_b1]"
       and ?s1.0 = "node0\<lparr>chain := [create_genesis_block, block_b1]\<rparr>"]
  have st: "sane_stored None" "list_all sane_event [Connection readings0 [] msg_block_b1]"
    by (simp_all add: sane_stored_def sane_event_def sane_readings0)
  have r: "run ext_accept node0 [Connection readings0 [] msg_block_b1]
      = Some (node0\<lparr>chain := [create_genesis_block, block_b1]\<rparr>)"
    by (simp add: connection_block_b1)
  from law st r Node_init_node0
  have wfc: "list_all wf_block (chain (node0\<lparr>chain := [create_genesis_block, block_b1]\<rparr>))"
    by blast
  then have b: "wf_block block_b1"
    by simp
  have h: "hash block_b1 = generate_hash block_b1"
    by (simp add: block_facts)
  from law b h have rb: "Block_from_dict readings0 (Block_to_dict block_b1) = Inr block_b1"
    by blast
  have fd: "Transaction_from_dict env0 (Transaction_to_dict tx_signed) = Inr tx_signed"
    by (simp add: from_dict_to_dict tx_signed_def)
  from law sane_readings0(1) fd have t: "wf_tx tx_signed"
    by blast
  have sg: "signature tx_signed = JStr ''00''"
    "ecdsa_verify ext_accept (sender_pubkey tx_signed) ''00'' (get_signing_data tx_signed)"
    by (simp_all add: tx_signed_def ext_accept_def)
  from law t sg
  have "\<exists>tx'. Transaction_from_dict env0 (Transaction_to_dict tx_signed) = Inr tx'
          \<and> ecdsa_verify ext_accept (sender_pubkey tx_signed) ''00'' (get_signing_data tx')"
    by blast
  with st r b h rb fd t sg sane_readings0(1) Node_init_node0 show ?thesis
    by simp
qed

end
